theory Spec2Isabelle
  imports Complex_Main
begin

section \<open>JavaScript values used by the items parser\<close>

text \<open>
  The parser works on JavaScript strings and numbers. A value that is a string, \<open>null\<close>
  (what \<open>getAttribute\<close> returns for a missing XML attribute) or \<open>undefined\<close> is a
  \<open>jsstr\<close>; the characters of a string are code units below 256. A number is a
  \<open>jsnum\<close>, an IEEE 754 double: \<open>Fin q\<close> is the finite double of value \<open>q\<close>
  (\<open>Fin 0\<close> the positive zero), \<open>NegZero\<close> the negative zero, then the two infinities
  and NaN. Every operation computes the exact rational result and rounds it to the
  nearest double, a tie going to the even significand, as the language prescribes.
\<close>

datatype jsstr = Undefined | Null | Str string

datatype jsnum = Fin rat | NegZero | PosInf | NegInf | NaN

datatype error = TypeError

subsection \<open>Doubles\<close>

fun isNaN :: "jsnum \<Rightarrow> bool" where
  "isNaN NaN = True"
| "isNaN _ = False"

fun isFinite :: "jsnum \<Rightarrow> bool" where
  "isFinite (Fin q) = True"
| "isFinite NegZero = True"
| "isFinite _ = False"

fun isZero :: "jsnum \<Rightarrow> bool" where
  "isZero (Fin q) = (q = 0)"
| "isZero NegZero = True"
| "isZero _ = False"

fun signBit :: "jsnum \<Rightarrow> bool" where
  "signBit (Fin q) = (q < 0)"
| "signBit NegZero = True"
| "signBit NegInf = True"
| "signBit _ = False"

fun valueOf :: "jsnum \<Rightarrow> rat" where
  "valueOf (Fin q) = q"
| "valueOf _ = 0"

definition signedZero :: "bool \<Rightarrow> jsnum" where
  "signedZero neg = (if neg then NegZero else Fin 0)"

definition signedInf :: "bool \<Rightarrow> jsnum" where
  "signedInf neg = (if neg then NegInf else PosInf)"

definition pow2 :: "int \<Rightarrow> rat" where
  "pow2 k = (if 0 \<le> k then 2 ^ nat k else 1 / 2 ^ nat (- k))"

text \<open>The number of binary digits of a positive integer.\<close>

function bitLength :: "int \<Rightarrow> int" where
  "bitLength n = (if n \<le> 0 then 0 else 1 + bitLength (n div 2))"
  by pat_completeness auto
termination
  by (relation "measure nat") auto

declare bitLength.simps [simp del]

text \<open>The binary exponent of a positive rational \<open>q\<close>: the \<open>e\<close> with \<open>2 ^ e \<le> q < 2 ^ (e + 1)\<close>.\<close>

definition exponentOf :: "rat \<Rightarrow> int" where
  "exponentOf q =
     (let est = bitLength (fst (quotient_of q)) - bitLength (snd (quotient_of q))
      in if pow2 est \<le> q then est else est - 1)"

definition roundHalfEven :: "rat \<Rightarrow> int" where
  "roundHalfEven x =
     (let f = \<lfloor>x\<rfloor>; d = x - of_int f
      in if d < 1 / 2 then f
         else if 1 / 2 < d then f + 1
         else if even f then f else f + 1)"

text \<open>
  The double nearest to a rational: 53 significant bits, the exponent no lower than
  -1022 (below it the doubles are spaced \<open>2 ^ -1074\<close> apart), a value that rounds to
  \<open>2 ^ 1024\<close> or beyond being an infinity, and a value that rounds to zero keeping its
  sign.
\<close>

definition roundDouble :: "rat \<Rightarrow> jsnum" where
  "roundDouble q =
     (if q = 0 then Fin 0
      else (let e = max (exponentOf \<bar>q\<bar>) (- 1022);
                u = pow2 (e - 52);
                n = roundHalfEven (\<bar>q\<bar> / u)
            in if 1024 \<le> e \<or> (e = 1023 \<and> n = 2 ^ 53) then signedInf (q < 0)
               else if n = 0 then signedZero (q < 0)
               else Fin (if q < 0 then - (of_int n * u) else of_int n * u)))"

subsection \<open>Number operations\<close>

text \<open>\<open>a + b\<close>: an exact sum of zero is the positive zero, unless both are the negative zero.\<close>

definition jsadd :: "jsnum \<Rightarrow> jsnum \<Rightarrow> jsnum" where
  "jsadd a b =
     (if isNaN a \<or> isNaN b then NaN
      else if \<not> isFinite a then (if \<not> isFinite b \<and> a \<noteq> b then NaN else a)
      else if \<not> isFinite b then b
      else if valueOf a + valueOf b = 0 then signedZero (a = NegZero \<and> b = NegZero)
      else roundDouble (valueOf a + valueOf b))"

text \<open>\<open>- a\<close> and \<open>a - b\<close>.\<close>

fun jsneg :: "jsnum \<Rightarrow> jsnum" where
  "jsneg (Fin x) = (if x = 0 then NegZero else Fin (- x))"
| "jsneg NegZero = Fin 0"
| "jsneg PosInf = NegInf"
| "jsneg NegInf = PosInf"
| "jsneg NaN = NaN"

definition jssub :: "jsnum \<Rightarrow> jsnum \<Rightarrow> jsnum" where
  "jssub a b = jsadd a (jsneg b)"

text \<open>\<open>a * b\<close>: zero times an infinity is NaN; the sign is the product of the signs.\<close>

definition jsmul :: "jsnum \<Rightarrow> jsnum \<Rightarrow> jsnum" where
  "jsmul a b =
     (if isNaN a \<or> isNaN b then NaN
      else if \<not> isFinite a \<or> \<not> isFinite b
      then (if isZero a \<or> isZero b then NaN else signedInf (signBit a \<noteq> signBit b))
      else if valueOf a * valueOf b = 0 then signedZero (signBit a \<noteq> signBit b)
      else roundDouble (valueOf a * valueOf b))"

text \<open>
  \<open>a / b\<close>: a non-zero value divided by a zero is an infinity, a zero divided by a zero
  and an infinity divided by an infinity are NaN, a finite value divided by an infinity
  is a zero; the sign is the product of the signs.
\<close>

definition jsdiv :: "jsnum \<Rightarrow> jsnum \<Rightarrow> jsnum" where
  "jsdiv a b =
     (if isNaN a \<or> isNaN b then NaN
      else if \<not> isFinite a
      then (if \<not> isFinite b then NaN else signedInf (signBit a \<noteq> signBit b))
      else if \<not> isFinite b then signedZero (signBit a \<noteq> signBit b)
      else if isZero b
      then (if isZero a then NaN else signedInf (signBit a \<noteq> signBit b))
      else if isZero a then signedZero (signBit a \<noteq> signBit b)
      else roundDouble (valueOf a / valueOf b))"

text \<open>
  \<open>Math.round\<close>: the nearest integer, a tie going up; a value in \<open>[-0.5, 0)\<close> gives
  the negative zero.
\<close>

fun jsround :: "jsnum \<Rightarrow> jsnum" where
  "jsround (Fin x) =
     (if \<lfloor>x + 1 / 2\<rfloor> = 0 then signedZero (x < 0) else Fin (of_int \<lfloor>x + 1 / 2\<rfloor>))"
| "jsround a = a"

text \<open>
  \<open>a !== b\<close> and \<open>a > b\<close> on numbers: NaN differs from everything and is not ordered;
  the two zeros are equal.
\<close>

definition strictNe :: "jsnum \<Rightarrow> jsnum \<Rightarrow> bool" where
  "strictNe a b = (isNaN a \<or> isNaN b \<or> (if isZero a then \<not> isZero b else a \<noteq> b))"

definition jsgt :: "jsnum \<Rightarrow> jsnum \<Rightarrow> bool" where
  "jsgt a b =
     (if isNaN a \<or> isNaN b then False
      else if a = PosInf then b \<noteq> PosInf
      else if a = NegInf \<or> b = PosInf then False
      else if b = NegInf then True
      else valueOf b < valueOf a)"

subsection \<open>Decimal digits\<close>

definition digitChars :: string where
  "digitChars = ''0123456789''"

definition isDigit :: "char \<Rightarrow> bool" where
  "isDigit c = (c \<in> set digitChars)"

fun indexOf :: "'a list \<Rightarrow> 'a \<Rightarrow> int" where
  "indexOf [] x = -1"
| "indexOf (y # ys) x =
     (if y = x then 0 else (let i = indexOf ys x in if i < 0 then -1 else i + 1))"

definition digitVal :: "char \<Rightarrow> int" where
  "digitVal c = indexOf digitChars c"

text \<open>The value of a digit string, most significant digit first.\<close>

fun digitsVal :: "int \<Rightarrow> string \<Rightarrow> int" where
  "digitsVal acc [] = acc"
| "digitsVal acc (c # cs) = digitsVal (acc * 10 + digitVal c) cs"

text \<open>The decimal digits of an integer that is not negative, most significant digit first.\<close>

function intToString :: "int \<Rightarrow> string" where
  "intToString n =
     (if n < 10 then [digitChars ! nat n]
      else intToString (n div 10) @ [digitChars ! nat (n mod 10)])"
  by pat_completeness auto
termination
  by (relation "measure nat") auto

declare intToString.simps [simp del]

definition pow10 :: "int \<Rightarrow> rat" where
  "pow10 k = (if 0 \<le> k then 10 ^ nat k else 1 / 10 ^ nat (- k))"

subsection \<open>Number to string\<close>

text \<open>
  The position \<open>n\<close> of the decimal point of a positive \<open>x\<close>: \<open>10 ^ (n - 1) \<le> x < 10 ^ n\<close>.
  The fuel covers the smallest double.
\<close>

fun pointBelowOne :: "nat \<Rightarrow> rat \<Rightarrow> int \<Rightarrow> int" where
  "pointBelowOne 0 x n = n"
| "pointBelowOne (Suc fuel) x n =
     (if x * 10 < 1 then pointBelowOne fuel (x * 10) (n - 1) else n)"

definition decimalPoint :: "rat \<Rightarrow> int" where
  "decimalPoint x =
     (if 1 \<le> x then int (length (intToString \<lfloor>x\<rfloor>)) else pointBelowOne 400 x 0)"

text \<open>
  The digits of a positive double \<open>x\<close>: the integer \<open>s\<close> of the fewest digits \<open>k\<close>, from
  \<open>k\<close> on, for which \<open>s * 10 ^ (n - k)\<close> rounds to \<open>x\<close>; of two such the one nearer to
  \<open>x\<close>, of two equally near the even one. Seventeen digits always suffice.
\<close>

fun shortestDigits :: "nat \<Rightarrow> nat \<Rightarrow> rat \<Rightarrow> int \<Rightarrow> int \<times> int" where
  "shortestDigits 0 k x n = (\<lfloor>x / pow10 (n - int k)\<rfloor>, n)"
| "shortestDigits (Suc fuel) k x n =
     (let scale = pow10 (n - int k);
          lo = \<lfloor>x / scale\<rfloor>;
          hi = lo + 1;
          okLo = (roundDouble (of_int lo * scale) = Fin x);
          okHi = (roundDouble (of_int hi * scale) = Fin x);
          dLo = x - of_int lo * scale;
          dHi = of_int hi * scale - x
      in if okHi \<and> (\<not> okLo \<or> dHi < dLo \<or> (dHi = dLo \<and> even hi))
         then (if hi = 10 ^ k then (hi div 10, n + 1) else (hi, n))
         else if okLo then (lo, n)
         else shortestDigits fuel (Suc k) x n)"

text \<open>
  The string of a positive double, as the language defines it: with the digits \<open>s\<close>,
  their count \<open>k\<close> and the position \<open>n\<close> of the decimal point, plain notation when
  \<open>-6 < n \<le> 21\<close> and exponent notation otherwise.
\<close>

definition posToString :: "rat \<Rightarrow> string" where
  "posToString x =
     (let (s, n) = shortestDigits 17 1 x (decimalPoint x);
          ds = intToString s;
          k = int (length ds)
      in if k \<le> n \<and> n \<le> 21 then ds @ replicate (nat (n - k)) (CHR ''0'')
         else if 0 < n \<and> n \<le> 21 then take (nat n) ds @ ''.'' @ drop (nat n) ds
         else if -6 < n \<and> n \<le> 0 then ''0.'' @ replicate (nat (- n)) (CHR ''0'') @ ds
         else (let e = n - 1;
                   es = (if e < 0 then ''-'' else ''+'') @ intToString \<bar>e\<bar>
               in if k = 1 then ds @ ''e'' @ es
                  else take 1 ds @ ''.'' @ drop 1 ds @ ''e'' @ es))"

definition numToString :: "jsnum \<Rightarrow> string" where
  "numToString a =
     (case a of
        NaN \<Rightarrow> ''NaN''
      | PosInf \<Rightarrow> ''Infinity''
      | NegInf \<Rightarrow> ''-Infinity''
      | NegZero \<Rightarrow> ''0''
      | Fin q \<Rightarrow>
          (if q = 0 then ''0''
           else if q < 0 then ''-'' @ posToString (- q)
           else posToString q))"

text \<open>A value in string concatenation, \<open>"" + v\<close>.\<close>

fun toStr :: "jsstr \<Rightarrow> string" where
  "toStr (Str s) = s"
| "toStr Null = ''null''"
| "toStr Undefined = ''undefined''"

subsection \<open>String to number\<close>

text \<open>
  \<open>Number.parseFloat\<close>: leading white space is skipped, then the longest prefix that is a
  decimal literal is read (a sign, \<open>Infinity\<close>, or digits with an optional fraction and
  an optional exponent); what follows is ignored, and no such prefix gives NaN. The value
  of the literal is rounded to the nearest double: a large one is an infinity, a tiny one
  a zero, and \<open>-0\<close> is the negative zero. The white space characters are those below 256.
\<close>

definition isWhiteSpace :: "char \<Rightarrow> bool" where
  "isWhiteSpace c =
     (c \<in> set [CHR '' '', CHR 0x09, CHR 0x0A, CHR 0x0B, CHR 0x0C, CHR 0x0D, CHR 0xA0])"

fun startsWith :: "string \<Rightarrow> string \<Rightarrow> bool" where
  "startsWith s [] = True"
| "startsWith [] (c # cs) = False"
| "startsWith (x # xs) (c # cs) = (x = c \<and> startsWith xs cs)"

definition signedDigits :: "string \<Rightarrow> int option" where
  "signedDigits s =
     (case s of
        [] \<Rightarrow> None
      | c # r \<Rightarrow>
          (if c = CHR ''-'' then (if takeWhile isDigit r = [] then None
                                 else Some (- digitsVal 0 (takeWhile isDigit r)))
           else if c = CHR ''+'' then (if takeWhile isDigit r = [] then None
                                      else Some (digitsVal 0 (takeWhile isDigit r)))
           else (if takeWhile isDigit s = [] then None
                 else Some (digitsVal 0 (takeWhile isDigit s)))))"

definition exponentPart :: "string \<Rightarrow> int" where
  "exponentPart s =
     (case s of
        [] \<Rightarrow> 0
      | c # r \<Rightarrow>
          (if c = CHR ''e'' \<or> c = CHR ''E''
           then (case signedDigits r of None \<Rightarrow> 0 | Some e \<Rightarrow> e)
           else 0))"

definition parseDecimal :: "string \<Rightarrow> jsnum" where
  "parseDecimal s =
     (if startsWith s ''Infinity'' then PosInf
      else (let ip = takeWhile isDigit s;
                r1 = dropWhile isDigit s;
                fp = (case r1 of [] \<Rightarrow> []
                      | c # r \<Rightarrow> if c = CHR ''.'' then takeWhile isDigit r else []);
                r2 = (case r1 of [] \<Rightarrow> []
                      | c # r \<Rightarrow> if c = CHR ''.'' then dropWhile isDigit r else r1)
            in if ip = [] \<and> fp = [] then NaN
               else roundDouble (of_int (digitsVal 0 (ip @ fp)) *
                                 pow10 (exponentPart r2 - int (length fp)))))"

definition parseFloat :: "jsstr \<Rightarrow> jsnum" where
  "parseFloat v =
     (case dropWhile isWhiteSpace (toStr v) of
        [] \<Rightarrow> NaN
      | c # r \<Rightarrow>
          (if c = CHR ''-'' then jsneg (parseDecimal r)
           else if c = CHR ''+'' then parseDecimal r
           else parseDecimal (c # r)))"

section \<open>util\<close>

text \<open>\<open>util.parseNumberDefault(value, def)\<close>.\<close>

definition parseNumberDefault :: "jsstr \<Rightarrow> jsnum \<Rightarrow> jsnum" where
  "parseNumberDefault v d =
     (let res = parseFloat v
      in if isNaN res \<or> \<not> isFinite res then d else res)"

section \<open>classes\<close>

definition groups_weapons :: "string list" where
  "groups_weapons = [''axes'', ''clubs'', ''ranged'', ''swords'', ''whips'']"

definition groups_protective :: "string list" where
  "groups_protective = [''armors'', ''boots'', ''cloaks'', ''helmets'', ''legs'', ''shields'']"

definition groups_projectiles :: "string list" where
  "groups_projectiles = [''arrows'', ''missiles'']"

definition isWeaponType :: "string \<Rightarrow> bool" where
  "isWeaponType cn = (cn = ''weapons'' \<or> indexOf groups_weapons cn > -1)"

definition isArmorType :: "string \<Rightarrow> bool" where
  "isArmorType cn = (cn = ''protective'' \<or> indexOf groups_protective cn > -1)"

definition isRangedType :: "string \<Rightarrow> bool" where
  "isRangedType cn = (cn = ''ranged'')"

definition isProjectileType :: "string \<Rightarrow> bool" where
  "isProjectileType cn = (cn = ''projectiles'' \<or> indexOf groups_projectiles cn > -1)"

section \<open>The item documents\<close>

text \<open>
  An item node of a class document, as the parser queries it: its \<open>name\<close> attribute; the
  first \<open>type\<close>, \<open>value\<close> and \<open>attributes\<close> elements below it (\<open>None\<close> when there
  is none); the \<open>susceptibility\<close> elements in document order; whether an
  \<open>unattainable\<close> element exists. An XML attribute that is not written is \<open>None\<close>.
  The attribute bag lists the elements below \<open>attributes\<close> in document order, each with
  its tag name and its \<open>value\<close> attribute; \<open>getElementsByTagName(name)[0]\<close> is the first
  entry with that tag.
\<close>

type_synonym attribute_bag = "(string \<times> string option) list"

record type_node =
  class_attr :: "string option"
  subclass_attr :: "string option"

record susceptibility_node =
  sus_type :: "string option"
  sus_value :: "string option"

record item_node =
  node_name :: "string option"
  node_type :: "type_node option"
  node_value :: "string option option"
  node_attributes :: "attribute_bag option"
  node_susceptibility :: "susceptibility_node list"
  node_unattainable :: bool

text \<open>\<open>element.getAttribute(a)\<close>: the string, or \<open>null\<close> for an attribute that is not written.\<close>

fun getAttribute :: "string option \<Rightarrow> jsstr" where
  "getAttribute None = Null"
| "getAttribute (Some s) = Str s"

section \<open>main\<close>

text \<open>
  An entry of \<open>main.items\<close>. The fields \<open>dpt\<close> and \<open>special\<close> of a fresh object are
  assigned before anything reads them.
\<close>

record item =
  item_name :: jsstr
  item_class :: jsstr
  item_image :: jsstr
  item_value :: jsstr
  item_level :: jsnum
  item_rate :: jsnum
  item_atk :: jsnum
  item_def :: jsnum
  item_range :: jsnum
  item_dpt :: jsnum
  item_special :: "jsstr list"

text \<open>The part of \<open>main\<close> that the parser reads and writes.\<close>

record main_state =
  className :: string
  showUnattainable :: bool
  items :: "item list"

text \<open>The search loop of \<open>main.pop\<close>: the first index whose item has the name, and the item.\<close>

fun popLoop :: "jsstr \<Rightarrow> item list \<Rightarrow> nat \<Rightarrow> (nat \<times> item) option" where
  "popLoop n [] idx = None"
| "popLoop n (x # xs) idx =
     (if item_name x = n then Some (idx, x) else popLoop n xs (Suc idx))"

text \<open>\<open>main.pop(name)\<close>: the item found is spliced out of the list and returned.\<close>

definition pop :: "string \<Rightarrow> main_state \<Rightarrow> item option \<times> main_state" where
  "pop n m =
     (case popLoop (Str n) (items m) 0 of
        None \<Rightarrow> (None, m)
      | Some (idx, it) \<Rightarrow>
          (Some it, m\<lparr>items := take idx (items m) @ drop (Suc idx) (items m)\<rparr>))"

section \<open>parser\<close>

text \<open>\<open>parser.numberAttribute(attributes, name, def)\<close> on an attribute bag that exists.\<close>

definition numberAttribute :: "attribute_bag \<Rightarrow> string \<Rightarrow> jsnum \<Rightarrow> jsnum" where
  "numberAttribute attributes n d =
     (case map_of attributes n of
        None \<Rightarrow> d
      | Some v \<Rightarrow> parseNumberDefault (getAttribute v) d)"

text \<open>\<open>parser.stringAttribute(attributes, name)\<close> on an attribute bag that exists.\<close>

definition stringAttribute :: "attribute_bag \<Rightarrow> string \<Rightarrow> jsstr" where
  "stringAttribute attributes n =
     (case map_of attributes n of
        None \<Rightarrow> Undefined
      | Some v \<Rightarrow> getAttribute v)"

subsection \<open>String operations of the special traits\<close>

text \<open>\<open>s.includes(t)\<close>: \<open>t\<close> occurs in \<open>s\<close>.\<close>

fun str_includes :: "string \<Rightarrow> string \<Rightarrow> bool" where
  "str_includes [] t = (t = [])"
| "str_includes (c # cs) t = (startsWith (c # cs) t \<or> str_includes cs t)"

text \<open>\<open>s.split(c)\<close> for a separator of one character.\<close>

fun str_split :: "string \<Rightarrow> char \<Rightarrow> string list" where
  "str_split [] c = [[]]"
| "str_split (x # xs) c =
     (if x = c then [] # str_split xs c
      else (case str_split xs c of
              [] \<Rightarrow> [[x]]
            | seg # segs \<Rightarrow> (x # seg) # segs))"

text \<open>\<open>xs[i]\<close> on an array of strings: \<open>undefined\<close> beyond the end.\<close>

definition array_at :: "string list \<Rightarrow> nat \<Rightarrow> jsstr" where
  "array_at xs i = (if i < length xs then Str (xs ! i) else Undefined)"

subsection \<open>The special traits, in the order in which parseItems pushes them\<close>

text \<open>Lines 659 to 662: the damage type.\<close>

definition natureTraits :: "attribute_bag \<Rightarrow> jsstr list" where
  "natureTraits attributes =
     (let nature = stringAttribute attributes ''damagetype''
      in if nature \<noteq> Undefined then [nature] else [])"

text \<open>
  Lines 663 to 672: the status attack. \<open>statusAttack.includes\<close> on \<open>null\<close> (a
  \<open>statusattack\<close> element with no \<open>value\<close> attribute) throws a TypeError.
\<close>

definition statusTraits :: "attribute_bag \<Rightarrow> error + jsstr list" where
  "statusTraits attributes =
     (case stringAttribute attributes ''statusattack'' of
        Undefined \<Rightarrow> Inr []
      | Null \<Rightarrow> Inl TypeError
      | Str statusAttack \<Rightarrow>
          (if str_includes statusAttack ''poison'' \<or> str_includes statusAttack ''venom''
           then Inr [Str ''poison'']
           else if str_includes statusAttack '',''
           then Inr [array_at (str_split statusAttack (CHR '','')) 1]
           else Inr [Str statusAttack]))"

text \<open>Lines 673 to 680: one susceptibility element.\<close>

definition susTrait :: "susceptibility_node \<Rightarrow> jsstr list" where
  "susTrait sus =
     (let v = jsdiv (jsround (jsmul (parseNumberDefault (getAttribute (sus_value sus)) (Fin 1))
                                    (Fin 1000)))
                    (Fin 10)
      in if strictNe v (Fin 100)
         then (let v' = jssub (Fin 100) v
               in [Str (toStr (getAttribute (sus_type sus)) @ '' ('' @
                        (if jsgt v' (Fin 0) then ''+'' else []) @ numToString v' @ ''%)'')])
         else [])"

definition susTraits :: "susceptibility_node list \<Rightarrow> jsstr list" where
  "susTraits suss = concat (map susTrait suss)"

text \<open>Lines 681 to 684.\<close>

definition lifestealTraits :: "attribute_bag \<Rightarrow> jsstr list" where
  "lifestealTraits attributes =
     (let lifesteal = jsmul (numberAttribute attributes ''lifesteal'' (Fin 0)) (Fin 100)
      in if strictNe lifesteal (Fin 0)
         then [Str (''lifesteal ('' @ (if jsgt lifesteal (Fin 0) then ''+'' else []) @
                    numToString lifesteal @ ''%)'')]
         else [])"

text \<open>Lines 685 to 695: the stats that the selected class has no column for.\<close>

definition atkTraits :: "string \<Rightarrow> item \<Rightarrow> jsstr list" where
  "atkTraits cn it =
     (if \<not> isWeaponType cn \<and> \<not> isProjectileType cn \<and> strictNe (item_atk it) (Fin 0)
      then [Str (''atk='' @ numToString (item_atk it))] else [])"

definition defTraits :: "string \<Rightarrow> item \<Rightarrow> jsstr list" where
  "defTraits cn it =
     (if \<not> isArmorType cn \<and> strictNe (item_def it) (Fin 0)
      then [Str (''def ('' @ numToString (item_def it) @ '')'')] else [])"

definition rangeTraits :: "string \<Rightarrow> item \<Rightarrow> jsstr list" where
  "rangeTraits cn it =
     (if \<not> isRangedType cn \<and> \<not> isProjectileType cn \<and> strictNe (item_range it) (Fin 0)
      then [Str (''range ('' @ numToString (item_range it) @ '')'')] else [])"

text \<open>
  Lines 696 to 712: the consumable effects. \<open>if (cures)\<close> holds for a string that is not
  empty; \<open>undefined\<close>, \<open>null\<close> and the empty string fail it.
\<close>

fun truthy :: "jsstr \<Rightarrow> bool" where
  "truthy (Str s) = (s \<noteq> [])"
| "truthy _ = False"

definition consumeTraits :: "attribute_bag \<Rightarrow> jsstr list" where
  "consumeTraits attributes =
     (let consumeAmount = numberAttribute attributes ''amount'' (Fin 0)
      in if strictNe consumeAmount (Fin 0)
         then (let cures = stringAttribute attributes ''immunization''
               in if truthy cures
                  then [Str (''cure ('' @ toStr cures @ '')''),
                        Str (''immunity duration ('' @ numToString consumeAmount @ '')'')]
                  else (let regenType = (if jsgt consumeAmount (Fin 0) then ''heal'' else ''hurt'');
                            regen = numberAttribute attributes ''regen'' (Fin 0);
                            frequency = numberAttribute attributes ''frequency'' (Fin 0)
                        in Str (regenType @ '' ('' @ numToString consumeAmount @ '')'') #
                           (if strictNe frequency (Fin 1) \<or> strictNe regen consumeAmount
                            then [Str (''regen ('' @ numToString regen @ '')''),
                                  Str (''frequency ('' @ numToString frequency @ '')'')]
                            else [])))
         else [])"

text \<open>
  Lines 658 to 712: the list that \<open>item.special\<close> holds at the end, or the TypeError of
  the status attack. The traits of \<open>atk\<close>, \<open>def\<close> and \<open>range\<close> read the record, the
  others the attribute bag and the susceptibility elements of the current node.
\<close>

definition specialTraits ::
  "string \<Rightarrow> attribute_bag \<Rightarrow> susceptibility_node list \<Rightarrow> item \<Rightarrow> error + jsstr list" where
  "specialTraits cn attributes suss it =
     (case statusTraits attributes of
        Inl e \<Rightarrow> Inl e
      | Inr status \<Rightarrow>
          Inr (natureTraits attributes @ status @ susTraits suss @ lifestealTraits attributes @
               atkTraits cn it @ defTraits cn it @ rangeTraits cn it @
               consumeTraits attributes))"

subsection \<open>parseItems\<close>

text \<open>Line 657: \<open>Math.round((item.atk / item.rate) * 100) / 100\<close>, and its assignment.\<close>

definition dptOf :: "jsnum \<Rightarrow> jsnum \<Rightarrow> jsnum" where
  "dptOf atk rate = jsdiv (jsround (jsmul (jsdiv atk rate) (Fin 100))) (Fin 100)"

definition assignDpt :: "item \<Rightarrow> item" where
  "assignDpt it = it\<lparr> item_dpt := dptOf (item_atk it) (item_rate it) \<rparr>"

text \<open>
  Lines 630 to 640: the object literal, for a node with a type element and an attribute
  bag. The literal has no \<open>dpt\<close> and no \<open>special\<close>; the two fields hold
  placeholders here until lines 657 and 658 assign them.
\<close>

definition freshItem :: "item_node \<Rightarrow> type_node \<Rightarrow> attribute_bag \<Rightarrow> item" where
  "freshItem itemData typeInfo attributes =
     \<lparr> item_name = getAttribute (node_name itemData),
       item_class = getAttribute (class_attr typeInfo),
       item_image = getAttribute (subclass_attr typeInfo),
       item_value = (case node_value itemData of
                       Some valueInfo \<Rightarrow> getAttribute valueInfo
                     | None \<Rightarrow> Str ''0''),
       item_level = numberAttribute attributes ''min_level'' (Fin 0),
       item_rate = numberAttribute attributes ''rate'' (Fin 0),
       item_atk = numberAttribute attributes ''atk'' (Fin 0),
       item_def = numberAttribute attributes ''def'' (Fin 0),
       item_range = numberAttribute attributes ''range'' (Fin 0),
       item_dpt = NaN,
       item_special = [] \<rparr>"

text \<open>Lines 642 to 647: the other half of the sword pair, popped from \<open>main.items\<close>.\<close>

definition popOtherHalf :: "item \<Rightarrow> main_state \<Rightarrow> item option \<times> main_state" where
  "popOtherHalf it m =
     (if item_name it = Str ''l hand sword'' then pop ''r hand sword'' m
      else if item_name it = Str ''r hand sword'' then pop ''l hand sword'' m
      else (None, m))"

text \<open>Lines 648 to 655: the popped record takes the place of the fresh one.\<close>

definition mergeHalves :: "item option \<Rightarrow> item \<Rightarrow> item" where
  "mergeHalves lrSword it =
     (case lrSword of
        Some lr \<Rightarrow> lr\<lparr> item_name := Str ''l/r hand swords'',
                       item_atk := jsadd (item_atk lr) (item_atk it),
                       item_def := jsadd (item_def lr) (item_def it) \<rparr>
      | None \<Rightarrow> it)"

text \<open>
  One round of the loop of \<open>parseItems\<close>, lines 626 to 723. The result is the exception
  thrown, if any, and \<open>main\<close> as the round leaves it. \<open>typeInfo.getAttribute\<close> on a
  node with no type element and \<open>attributes.getElementsByTagName\<close> on a node with no
  attributes element throw before \<open>main.items\<close> is touched; the status attack throws
  after the pop.
\<close>

definition parseItem :: "main_state \<Rightarrow> item_node \<Rightarrow> error option \<times> main_state" where
  "parseItem m itemData =
     (case node_type itemData of
        None \<Rightarrow> (Some TypeError, m)
      | Some typeInfo \<Rightarrow>
          (case node_attributes itemData of
             None \<Rightarrow> (Some TypeError, m)
           | Some attributes \<Rightarrow>
               (let fresh = freshItem itemData typeInfo attributes;
                    (lrSword, m1) = popOtherHalf fresh m;
                    it = assignDpt (mergeHalves lrSword fresh)
                in case specialTraits (className m1) attributes
                          (node_susceptibility itemData) it of
                     Inl e \<Rightarrow> (Some e, m1)
                   | Inr special \<Rightarrow>
                       (if node_unattainable itemData \<and> \<not> showUnattainable m1
                        then (None, m1)
                        else (None, m1\<lparr> items := items m1 @
                                        [it\<lparr> item_special := special \<rparr>] \<rparr>)))))"

text \<open>
  \<open>parser.parseItems\<close> on the item nodes of a document, in document order. An exception
  ends the loop and leaves \<open>main\<close> as it is then.
\<close>

fun parseItems :: "main_state \<Rightarrow> item_node list \<Rightarrow> error option \<times> main_state" where
  "parseItems m [] = (None, m)"
| "parseItems m (itemData # rest) =
     (case parseItem m itemData of
        (None, m1) \<Rightarrow> parseItems m1 rest
      | (Some e, m1) \<Rightarrow> (Some e, m1))"

section \<open>Notions used in the properties\<close>

text \<open>
  The specification's words for the comma rule of the status attack, "the substring after
  the first comma": everything behind the first comma.
\<close>

definition afterFirstComma :: "string \<Rightarrow> string" where
  "afterFirstComma s = tl (dropWhile (\<lambda>c. c \<noteq> CHR '','') s)"

text \<open>
  The data model's invariant for \<open>dpt\<close>, on one record: the field holds line 657's value
  for the record's own \<open>atk\<close> and \<open>rate\<close>; the rate is a finite number and the
  \<open>atk\<close> a number other than NaN (the sum of a merge can overflow to an infinity).
\<close>

definition dptInv :: "item \<Rightarrow> bool" where
  "dptInv r = (item_dpt r = dptOf (item_atk r) (item_rate r) \<and>
               isFinite (item_rate r) \<and> \<not> isNaN (item_atk r))"

text \<open>
  The inputs on which the loop of \<open>parseItems\<close> dereferences nothing missing: the item
  has a type element and an attributes element, and a \<open>statusattack\<close> element, if there
  is one, carries a value.
\<close>

definition hasRequiredNodes :: "item_node \<Rightarrow> bool" where
  "hasRequiredNodes nd =
     (case node_type nd of
        None \<Rightarrow> False
      | Some typeInfo \<Rightarrow>
          (case node_attributes nd of
             None \<Rightarrow> False
           | Some attributes \<Rightarrow> stringAttribute attributes ''statusattack'' \<noteq> Null))"

text \<open>
  The names under which a record of the sword pair can stand in the collection: the two
  halves and the merged pair.
\<close>

definition pairNames :: "jsstr set" where
  "pairNames = {Str ''l hand sword'', Str ''r hand sword'', Str ''l/r hand swords''}"

section \<open>Example inputs\<close>

text \<open>\<open>main\<close> as the script initialises it, before the page's query string is read.\<close>

definition main_init :: main_state where
  "main_init = \<lparr> className = ''weapons'', showUnattainable = False, items = [] \<rparr>"

text \<open>
  An item node with a name, a type element of the given class, the given attribute bag,
  and no value, susceptibility or unattainable element.
\<close>

definition plainNode :: "string \<Rightarrow> string \<Rightarrow> attribute_bag \<Rightarrow> item_node" where
  "plainNode n c bag =
     \<lparr> node_name = Some n,
       node_type = Some \<lparr> class_attr = Some c, subclass_attr = Some n \<rparr>,
       node_value = None,
       node_attributes = Some bag,
       node_susceptibility = [],
       node_unattainable = False \<rparr>"

section \<open>Facts about the building blocks\<close>

subsection \<open>Rounding to a double\<close>

lemma pow2_pos [simp]: "0 < pow2 k"
  by (simp add: pow2_def)

lemma pow2_neq0 [simp]: "pow2 k \<noteq> 0"
  by (simp add: pow2_def)

lemma pow2_add: "pow2 (a + b) = pow2 a * pow2 b"
proof -
  have "pow2 k = 2 powi k" for k
    by (simp add: pow2_def power_int_def field_simps)
  then show ?thesis by (simp add: power_int_add)
qed

lemma pow2_nat: "0 \<le> k \<Longrightarrow> pow2 k = 2 ^ nat k"
  by (simp add: pow2_def)

lemma pow2_mono: "a \<le> b \<Longrightarrow> pow2 a \<le> pow2 b"
proof -
  assume "a \<le> b"
  then obtain d where d: "b = a + d" "0 \<le> d" by (metis add.commute diff_add_cancel diff_ge_0_iff_ge)
  have "1 \<le> pow2 d" using d(2) by (simp add: pow2_def)
  then have "pow2 a * 1 \<le> pow2 a * pow2 d" by (intro mult_left_mono) (simp_all add: less_imp_le)
  then show ?thesis by (simp add: d pow2_add)
qed

lemma pow2_less_cancel: "pow2 a < pow2 b \<Longrightarrow> a < b"
  using pow2_mono [of b a] by (cases "a < b") auto

lemma bitLength_bounds:
  "0 < n \<Longrightarrow> 2 ^ nat (bitLength n - 1) \<le> n \<and> n < 2 ^ nat (bitLength n) \<and> 1 \<le> bitLength n"
proof (induction n rule: bitLength.induct)
  case (1 n)
  show ?case
  proof (cases "n div 2 = 0")
    case True
    with "1.prems" have "n = 1" by presburger
    then show ?thesis by (simp add: bitLength.simps [of 1] bitLength.simps [of 0])
  next
    case False
    with "1.prems" have pos: "0 < n div 2" by presburger
    from "1.prems" have "\<not> n \<le> 0" by simp
    from "1.IH" [OF this pos] obtain
      lo: "2 ^ nat (bitLength (n div 2) - 1) \<le> n div 2"
      and hi: "n div 2 < 2 ^ nat (bitLength (n div 2))"
      and ge: "1 \<le> bitLength (n div 2)" by blast
    have bl: "bitLength n = 1 + bitLength (n div 2)"
      using "1.prems" by (subst bitLength.simps) simp
    have n1: "nat (bitLength n - 1) = Suc (nat (bitLength (n div 2) - 1))"
      using ge bl by simp
    have n2: "nat (bitLength n) = Suc (nat (bitLength (n div 2)))"
      using ge bl by simp
    from lo have "2 * 2 ^ nat (bitLength (n div 2) - 1) \<le> n" by presburger
    moreover from hi have "n < 2 * 2 ^ nat (bitLength (n div 2))" by presburger
    ultimately show ?thesis using n1 n2 bl ge by simp
  qed
qed

lemma pow2_diff: "pow2 (a - b) = pow2 a / pow2 b"
proof -
  have "pow2 a = pow2 ((a - b) + b)" by simp
  also have "\<dots> = pow2 (a - b) * pow2 b" by (rule pow2_add)
  finally show ?thesis by simp
qed

lemma exponentOf_bounds:
  assumes "0 < q"
  shows "pow2 (exponentOf q) \<le> q \<and> q < pow2 (exponentOf q + 1)"
proof -
  obtain a b where ab: "quotient_of q = (a, b)" by (cases "quotient_of q")
  then have q: "q = of_int a / of_int b" and b: "0 < b"
    by (simp_all add: quotient_of_div quotient_of_denom_pos)
  from assms q b have a: "0 < a" by (simp add: zero_less_divide_iff)
  let ?la = "bitLength a" and ?lb = "bitLength b"
  from bitLength_bounds [OF a] have a1: "2 ^ nat (?la - 1) \<le> a" and a2: "a < 2 ^ nat ?la"
    and la: "1 \<le> ?la" by simp_all
  from bitLength_bounds [OF b] have b1: "2 ^ nat (?lb - 1) \<le> b" and b2: "b < 2 ^ nat ?lb"
    and lb: "1 \<le> ?lb" by simp_all
  have ra1: "pow2 (?la - 1) \<le> of_int a"
  proof -
    from a1 have "(of_int (2 ^ nat (?la - 1)) :: rat) \<le> of_int a" by (simp only: of_int_le_iff)
    then show ?thesis using la by (simp add: pow2_def)
  qed
  have ra2: "of_int a < pow2 ?la"
  proof -
    from a2 have "(of_int a :: rat) < of_int (2 ^ nat ?la)" by (simp only: of_int_less_iff)
    then show ?thesis using la by (simp add: pow2_def)
  qed
  have rb1: "pow2 (?lb - 1) \<le> of_int b"
  proof -
    from b1 have "(of_int (2 ^ nat (?lb - 1)) :: rat) \<le> of_int b" by (simp only: of_int_le_iff)
    then show ?thesis using lb by (simp add: pow2_def)
  qed
  have rb2: "of_int b < pow2 ?lb"
  proof -
    from b2 have "(of_int b :: rat) < of_int (2 ^ nat ?lb)" by (simp only: of_int_less_iff)
    then show ?thesis using lb by (simp add: pow2_def)
  qed
  have bpos: "(0 :: rat) < of_int b" using b by simp
  have apos: "(0 :: rat) < of_int a" using a by simp
  have upper: "q < pow2 (?la - ?lb + 1)"
  proof -
    have "q < pow2 ?la / of_int b" unfolding q using ra2 bpos by (simp add: divide_strict_right_mono)
    also have "\<dots> \<le> pow2 ?la / pow2 (?lb - 1)"
      using rb1 bpos by (intro divide_left_mono) (simp_all add: less_imp_le zero_less_mult_iff)
    also have "\<dots> = pow2 (?la - (?lb - 1))" by (simp add: pow2_diff)
    finally show ?thesis by (simp add: algebra_simps)
  qed
  have lower: "pow2 (?la - ?lb - 1) < q"
  proof -
    have "pow2 (?la - ?lb - 1) = pow2 ((?la - 1) - ?lb)" by (simp add: algebra_simps)
    also have "\<dots> = pow2 (?la - 1) / pow2 ?lb" by (rule pow2_diff)
    also have "\<dots> < pow2 (?la - 1) / of_int b"
      using rb2 bpos by (intro divide_strict_left_mono) simp_all
    also have "\<dots> \<le> of_int a / of_int b"
      using ra1 bpos by (simp add: divide_right_mono)
    finally show ?thesis by (simp add: q)
  qed
  show ?thesis
  proof (cases "pow2 (?la - ?lb) \<le> q")
    case True
    then have "exponentOf q = ?la - ?lb" by (simp add: exponentOf_def ab)
    with True upper show ?thesis by simp
  next
    case False
    then have "exponentOf q = ?la - ?lb - 1" by (simp add: exponentOf_def ab)
    with False lower show ?thesis by (simp add: less_imp_le)
  qed
qed

lemma roundHalfEven_cases: "roundHalfEven x = \<lfloor>x\<rfloor> \<or> roundHalfEven x = \<lfloor>x\<rfloor> + 1"
  by (simp add: roundHalfEven_def Let_def)

lemma roundHalfEven_ge: "1 \<le> x \<Longrightarrow> 1 \<le> roundHalfEven x"
proof -
  assume "1 \<le> x"
  then have "1 \<le> \<lfloor>x\<rfloor>" by (simp add: le_floor_iff)
  with roundHalfEven_cases [of x] show ?thesis by auto
qed

lemma roundHalfEven_of_int [simp]: "roundHalfEven (of_int m) = m"
  by (simp add: roundHalfEven_def)

lemma unit_le:
  assumes "q \<noteq> 0"
  shows "pow2 (max (exponentOf \<bar>q\<bar>) (- 1022) - 52) \<le> max \<bar>q\<bar> (pow2 (- 1074))"
proof (cases "- 1022 \<le> exponentOf \<bar>q\<bar>")
  case True
  then have "max (exponentOf \<bar>q\<bar>) (- 1022) = exponentOf \<bar>q\<bar>" by simp
  moreover have "pow2 (exponentOf \<bar>q\<bar> - 52) \<le> \<bar>q\<bar>"
  proof -
    have "pow2 (exponentOf \<bar>q\<bar> - 52) \<le> pow2 (exponentOf \<bar>q\<bar>)"
      by (rule pow2_mono) simp
    also from assms have "pow2 (exponentOf \<bar>q\<bar>) \<le> \<bar>q\<bar>"
      using exponentOf_bounds [of "\<bar>q\<bar>"] by simp
    finally show ?thesis .
  qed
  ultimately show ?thesis by (simp add: le_max_iff_disj)
next
  case False
  then have "max (exponentOf \<bar>q\<bar>) (- 1022) - 52 = - 1074" by simp
  then show ?thesis by simp
qed

lemma roundDouble_not_NaN [simp]: "roundDouble q \<noteq> NaN"
  by (simp add: roundDouble_def Let_def signedInf_def signedZero_def)

lemma roundDouble_grid:
  assumes "roundDouble q = Fin p"
  shows "\<exists>k. p = of_int k * pow2 (- 1074)"
proof (cases "q = 0")
  case True
  with assms have "p = of_int 0 * pow2 (- 1074)" by (simp add: roundDouble_def)
  then show ?thesis by blast
next
  case False
  let ?e = "max (exponentOf \<bar>q\<bar>) (- 1022)"
  let ?n = "roundHalfEven (\<bar>q\<bar> / pow2 (?e - 52))"
  have u: "pow2 (?e - 52) = of_int (2 ^ nat (?e + 1022)) * pow2 (- 1074)"
  proof -
    have "pow2 (?e - 52) = pow2 ((?e + 1022) + (- 1074))" by (simp add: algebra_simps)
    also have "\<dots> = pow2 (?e + 1022) * pow2 (- 1074)" by (rule pow2_add)
    also have "pow2 (?e + 1022) = of_int (2 ^ nat (?e + 1022))" by (simp add: pow2_def)
    finally show ?thesis .
  qed
  from assms False consider "p = 0" | "p = of_int ?n * pow2 (?e - 52)"
    | "p = - (of_int ?n * pow2 (?e - 52))"
    by (auto simp: roundDouble_def Let_def signedInf_def signedZero_def split: if_splits)
  then show ?thesis
  proof cases
    case 1
    then have "p = of_int 0 * pow2 (- 1074)" by simp
    then show ?thesis by blast
  next
    case 2
    then have "p = of_int (?n * 2 ^ nat (?e + 1022)) * pow2 (- 1074)"
      by (simp only: u of_int_mult mult.assoc)
    then show ?thesis by blast
  next
    case 3
    then have "p = of_int (- (?n * 2 ^ nat (?e + 1022))) * pow2 (- 1074)"
      by (simp only: u of_int_mult of_int_minus mult.assoc mult_minus_left)
    then show ?thesis by blast
  qed
qed

lemma roundDouble_nonzero:
  assumes "q \<noteq> 0" and "pow2 (- 1074) \<le> \<bar>q\<bar>"
  shows "\<not> isZero (roundDouble q)"
proof -
  let ?e = "max (exponentOf \<bar>q\<bar>) (- 1022)"
  let ?u = "pow2 (?e - 52)"
  let ?n = "roundHalfEven (\<bar>q\<bar> / ?u)"
  from unit_le [OF assms(1)] assms(2) have "?u \<le> \<bar>q\<bar>" by simp
  then have "1 \<le> \<bar>q\<bar> / ?u" by (simp add: le_divide_eq)
  then have n: "1 \<le> ?n" by (rule roundHalfEven_ge)
  then have "(0 :: rat) < of_int ?n * ?u" by (simp add: zero_less_mult_iff)
  with n assms(1) show ?thesis
    by (auto simp: roundDouble_def Let_def signedInf_def signedZero_def)
qed

lemma roundDouble_of_int:
  assumes "\<bar>i\<bar> < 2 ^ 53"
  shows "roundDouble (of_int i) = Fin (of_int i)"
proof (cases "i = 0")
  case True
  then show ?thesis by (simp add: roundDouble_def)
next
  case False
  let ?q = "of_int i :: rat"
  let ?x = "exponentOf \<bar>?q\<bar>"
  from False have qpos: "0 < \<bar>?q\<bar>" by simp
  from exponentOf_bounds [OF qpos] have lo: "pow2 ?x \<le> \<bar>?q\<bar>" and hi: "\<bar>?q\<bar> < pow2 (?x + 1)"
    by simp_all
  from False have "1 \<le> \<bar>i\<bar>" by simp
  then have "(1 :: rat) \<le> of_int \<bar>i\<bar>" by (simp only: of_int_1_le_iff)
  then have one: "pow2 0 \<le> \<bar>?q\<bar>" by (simp add: pow2_def)
  with hi have "pow2 0 < pow2 (?x + 1)" by simp
  then have x0: "0 \<le> ?x" using pow2_less_cancel [of 0 "?x + 1"] by simp
  from assms have "(of_int \<bar>i\<bar> :: rat) < of_int (2 ^ 53)" by (simp only: of_int_less_iff)
  then have "\<bar>?q\<bar> < pow2 53" by (simp add: pow2_def)
  with lo have "pow2 ?x < pow2 53" by simp
  then have x52: "?x \<le> 52" using pow2_less_cancel [of ?x 53] by simp
  from x0 have e: "max ?x (- 1022) = ?x" by simp
  have u: "pow2 (?x - 52) = 1 / of_int (2 ^ nat (52 - ?x))"
    using x52 by (cases "?x = 52") (simp_all add: pow2_def)
  have quot: "\<bar>?q\<bar> / pow2 (?x - 52) = of_int (\<bar>i\<bar> * 2 ^ nat (52 - ?x))"
    by (simp add: u)
  have n: "roundHalfEven (\<bar>?q\<bar> / pow2 (?x - 52)) = \<bar>i\<bar> * 2 ^ nat (52 - ?x)"
    by (simp only: quot roundHalfEven_of_int)
  have restored: "of_int (\<bar>i\<bar> * 2 ^ nat (52 - ?x)) * pow2 (?x - 52) = \<bar>?q\<bar>"
    by (simp add: u)
  have nz: "\<bar>i\<bar> * 2 ^ nat (52 - ?x) \<noteq> 0" using False by simp
  show ?thesis
    unfolding roundDouble_def Let_def e n restored
    using False x52 nz by simp
qed

subsection \<open>Reading numbers\<close>

lemma indexOf_member: "(indexOf xs x > -1) = (x \<in> set xs)"
  by (induction xs) (auto simp: Let_def)

lemma isFinite_not_isNaN: "isFinite a \<Longrightarrow> \<not> isNaN a"
  by (cases a) simp_all

lemma parseNumberDefault_isFinite: "isFinite d \<Longrightarrow> isFinite (parseNumberDefault v d)"
  by (simp add: parseNumberDefault_def Let_def)

lemma numberAttribute_isFinite: "isFinite d \<Longrightarrow> isFinite (numberAttribute bag n d)"
  by (simp add: numberAttribute_def parseNumberDefault_isFinite split: option.splits)

section \<open>Classification of class and group names\<close>

text \<open>
  C8. For every class or group name: \<open>isWeaponType\<close> holds exactly for the group name
  \<open>weapons\<close> and the classes axes, clubs, ranged, swords and whips; \<open>isArmorType\<close>
  exactly for the group name \<open>protective\<close> and the classes armors, boots, cloaks, helmets,
  legs and shields; \<open>isProjectileType\<close> exactly for the group name \<open>projectiles\<close> and
  the classes arrows and missiles; \<open>isRangedType\<close> exactly for the literal \<open>ranged\<close>.
  In particular axes and weapons are weapon types, legs is an armor type and swords is not
  a ranged type.
\<close>

theorem classification_exact:
  "isWeaponType n =
     (n = ''weapons'' \<or> n \<in> {''axes'', ''clubs'', ''ranged'', ''swords'', ''whips''}) \<and>
   isArmorType n =
     (n = ''protective'' \<or>
      n \<in> {''armors'', ''boots'', ''cloaks'', ''helmets'', ''legs'', ''shields''}) \<and>
   isProjectileType n = (n = ''projectiles'' \<or> n \<in> {''arrows'', ''missiles''}) \<and>
   isRangedType n = (n = ''ranged'') \<and>
   isWeaponType ''axes'' \<and> isWeaponType ''weapons'' \<and> isArmorType ''legs'' \<and>
   \<not> isRangedType ''swords''"
  unfolding isWeaponType_def isArmorType_def isProjectileType_def isRangedType_def
    indexOf_member groups_weapons_def groups_protective_def groups_projectiles_def
  by auto

theorem classification_exact_witness:
  "isWeaponType ''clubs'' \<and> \<not> isWeaponType ''legs'' \<and> isArmorType ''protective'' \<and>
   \<not> isArmorType ''armor'' \<and> isProjectileType ''arrows'' \<and> \<not> isProjectileType ''ranged'' \<and>
   isRangedType ''ranged''"
  using classification_exact [of "''clubs''"] classification_exact [of "''legs''"]
    classification_exact [of "''protective''"] classification_exact [of "''armor''"]
    classification_exact [of "''arrows''"] classification_exact [of "''ranged''"]
  by simp

section \<open>Reading an attribute bag\<close>

text \<open>
  C7. For every attribute bag, attribute name and default: when the bag has no element of
  that name, \<open>numberAttribute\<close> returns the default and \<open>stringAttribute\<close> returns
  \<open>undefined\<close>, which is not the empty string. When the bag has one, \<open>stringAttribute\<close>
  returns the \<open>value\<close> attribute of the first as it is, and \<open>numberAttribute\<close> returns
  what \<open>parseFloat\<close> makes of it, or the default when that is NaN or not finite.
\<close>

theorem attribute_readers:
  "(map_of bag n = None \<longrightarrow>
      numberAttribute bag n d = d \<and> stringAttribute bag n = Undefined) \<and>
   (map_of bag n = Some v \<longrightarrow>
      stringAttribute bag n = getAttribute v \<and>
      numberAttribute bag n d =
        (if isNaN (parseFloat (getAttribute v)) \<or> \<not> isFinite (parseFloat (getAttribute v))
         then d else parseFloat (getAttribute v))) \<and>
   (map_of bag n = Some (Some s) \<longrightarrow> stringAttribute bag n = Str s) \<and>
   Undefined \<noteq> Str []"
  by (simp add: numberAttribute_def stringAttribute_def parseNumberDefault_def Let_def)

theorem attribute_readers_witness:
  "numberAttribute [(''atk'', Some ''5'')] ''def'' (Fin 7) = Fin 7 \<and>
   stringAttribute [(''atk'', Some ''5'')] ''def'' = Undefined \<and>
   numberAttribute [(''atk'', Some ''12.5''), (''atk'', Some ''9'')] ''atk'' (Fin 7) = Fin (25 / 2) \<and>
   stringAttribute [(''atk'', Some ''12.5''), (''atk'', Some ''9'')] ''atk'' = Str ''12.5'' \<and>
   numberAttribute [(''atk'', Some ''strong'')] ''atk'' (Fin 7) = Fin 7 \<and>
   numberAttribute [(''atk'', Some ''Infinity'')] ''atk'' (Fin 7) = Fin 7 \<and>
   numberAttribute [(''atk'', None)] ''atk'' (Fin 7) = Fin 7"
proof -
  have absent: "map_of [(''atk'', Some ''5'')] ''def'' = None"
    by simp
  have present: "map_of [(''atk'', Some ''12.5''), (''atk'', Some ''9'')] ''atk'' = Some (Some ''12.5'')"
    by simp
  have p1: "parseFloat (Str ''12.5'') = Fin (25 / 2)" by code_simp
  have p2: "parseFloat (Str ''strong'') = NaN" by code_simp
  have p3: "parseFloat (Str ''Infinity'') = PosInf" by code_simp
  have p4: "parseFloat Null = NaN" by code_simp
  show ?thesis
    using absent present p1 p2 p3 p4
      attribute_readers [of "[(''atk'', Some ''5'')]" "''def''" "Fin 7"]
      attribute_readers [of "[(''atk'', Some ''12.5''), (''atk'', Some ''9'')]" "''atk''"
        "Fin 7" "Some ''12.5''" "''12.5''"]
      attribute_readers [of "[(''atk'', Some ''strong'')]" "''atk''" "Fin 7" "Some ''strong''"]
      attribute_readers [of "[(''atk'', Some ''Infinity'')]" "''atk''" "Fin 7" "Some ''Infinity''"]
      attribute_readers [of "[(''atk'', None)]" "''atk''" "Fin 7" "None"]
    by simp
qed

section \<open>The status attack trait\<close>

lemma startsWith_iff: "startsWith s t = (\<exists>q. s = t @ q)"
  by (induction s t rule: startsWith.induct) auto

lemma str_includes_iff: "str_includes s t = (\<exists>p q. s = p @ t @ q)"
proof (induction s)
  case Nil
  then show ?case by simp
next
  case (Cons c cs)
  show ?case
  proof
    assume "str_includes (c # cs) t"
    then consider "startsWith (c # cs) t" | "str_includes cs t" by auto
    then show "\<exists>p q. c # cs = p @ t @ q"
    proof cases
      case 1
      then obtain q where "c # cs = t @ q" by (auto simp: startsWith_iff)
      then have "c # cs = [] @ t @ q" by simp
      then show ?thesis by blast
    next
      case 2
      then obtain p q where "cs = p @ t @ q" using Cons.IH by auto
      then have "c # cs = (c # p) @ t @ q" by simp
      then show ?thesis by blast
    qed
  next
    assume "\<exists>p q. c # cs = p @ t @ q"
    then obtain p q where pq: "c # cs = p @ t @ q" by blast
    show "str_includes (c # cs) t"
    proof (cases p)
      case Nil
      with pq have "startsWith (c # cs) t" by (auto simp: startsWith_iff)
      then show ?thesis by simp
    next
      case (Cons a p')
      with pq have "cs = p' @ t @ q" by simp
      then have "str_includes cs t" using Cons.IH by blast
      then show ?thesis by simp
    qed
  qed
qed

lemma str_includes_char: "str_includes s [c] = (c \<in> set s)"
  by (induction s) auto

lemma str_split_nonempty: "str_split s c \<noteq> []"
  by (induction s) (auto split: list.splits)

lemma str_split_hd: "hd (str_split s c) = takeWhile (\<lambda>x. x \<noteq> c) s"
  by (induction s) (auto split: list.splits simp: str_split_nonempty)

lemma str_split_second:
  "c \<in> set s \<Longrightarrow>
   array_at (str_split s c) (Suc 0) =
     Str (takeWhile (\<lambda>x. x \<noteq> c) (tl (dropWhile (\<lambda>x. x \<noteq> c) s)))"
proof (induction s)
  case Nil
  then show ?case by simp
next
  case (Cons x xs)
  show ?case
  proof (cases "x = c")
    case True
    have "str_split xs c \<noteq> []" by (rule str_split_nonempty)
    then obtain seg segs where sp: "str_split xs c = seg # segs" by (cases "str_split xs c") auto
    have "hd (str_split xs c) = takeWhile (\<lambda>x. x \<noteq> c) xs" by (rule str_split_hd)
    with sp have "seg = takeWhile (\<lambda>x. x \<noteq> c) xs" by simp
    with True sp show ?thesis by (simp add: array_at_def)
  next
    case False
    with Cons.prems have "c \<in> set xs" by simp
    then have IH: "array_at (str_split xs c) (Suc 0) =
      Str (takeWhile (\<lambda>x. x \<noteq> c) (tl (dropWhile (\<lambda>x. x \<noteq> c) xs)))" by (rule Cons.IH)
    have "str_split xs c \<noteq> []" by (rule str_split_nonempty)
    then obtain seg segs where sp: "str_split xs c = seg # segs" by (cases "str_split xs c") auto
    with IH False show ?thesis by (auto simp: array_at_def split: if_splits)
  qed
qed

text \<open>
  C5, as stated, at a status attack with two commas: the parser pushes the second field
  of the comma-separated value, which is not everything behind the first comma.
\<close>

theorem status_attack_counterexample:
  "statusTraits [(''statusattack'', Some ''fire,ice,wind'')] = Inr [Str ''ice''] \<and>
   afterFirstComma ''fire,ice,wind'' = ''ice,wind''"
  by (simp add: statusTraits_def stringAttribute_def afterFirstComma_def array_at_def)

text \<open>
  C5, amended. For every item whose attribute bag has a \<open>statusattack\<close> element with a
  value: if the value contains \<open>poison\<close> or \<open>venom\<close>, the literal \<open>poison\<close> is pushed;
  otherwise, if it contains a comma, the part between the first comma and the next comma
  (or the end) is pushed; otherwise the value itself. The poison rule comes first. The
  trait follows the damage type in \<open>special\<close>.
\<close>

theorem status_attack_trait:
  assumes "map_of bag ''statusattack'' = Some (Some s)"
  shows "statusTraits bag =
     Inr [Str (if (\<exists>p q. s = p @ ''poison'' @ q) \<or> (\<exists>p q. s = p @ ''venom'' @ q) then ''poison''
               else if CHR '','' \<in> set s
               then takeWhile (\<lambda>c. c \<noteq> CHR '','') (afterFirstComma s)
               else s)] \<and>
   (\<exists>rest. specialTraits cn bag suss it =
      Inr (natureTraits bag @ projr (statusTraits bag) @ rest))"
proof -
  have comma: "str_includes s '','' = (CHR '','' \<in> set s)"
    by (rule str_includes_char)
  show ?thesis
    unfolding str_includes_iff [symmetric] comma [symmetric]
    using assms
    by (simp add: statusTraits_def specialTraits_def stringAttribute_def str_includes_char
        str_split_second afterFirstComma_def)
qed

theorem status_attack_trait_witness:
  "statusTraits [(''statusattack'', Some ''poison,weak'')] = Inr [Str ''poison''] \<and>
   statusTraits [(''statusattack'', Some ''fire,ice'')] = Inr [Str ''ice''] \<and>
   statusTraits [(''statusattack'', Some ''30,venomous,5'')] = Inr [Str ''poison''] \<and>
   statusTraits [(''statusattack'', Some ''fire,ice,wind'')] = Inr [Str ''ice''] \<and>
   statusTraits [(''statusattack'', Some ''shock'')] = Inr [Str ''shock'']"
proof -
  have w: "map_of [(''statusattack'', Some s)] ''statusattack'' = Some (Some s)" for s
    by simp
  show ?thesis
    using status_attack_trait [OF w [of "''poison,weak''"]]
      status_attack_trait [OF w [of "''fire,ice''"]]
      status_attack_trait [OF w [of "''30,venomous,5''"]]
      status_attack_trait [OF w [of "''fire,ice,wind''"]]
      status_attack_trait [OF w [of "''shock''"]]
    unfolding str_includes_iff [symmetric] afterFirstComma_def
    by simp
qed

section \<open>The susceptibility traits\<close>

lemma isNaN_iff: "isNaN a = (a = NaN)"
  by (cases a) simp_all

lemma roundDouble_isNaN [simp]: "\<not> isNaN (roundDouble q)"
  by (simp add: isNaN_iff)

lemma int_on_grid: "0 \<le> n \<Longrightarrow> \<exists>k. (of_int m :: rat) = of_int k * pow2 (- n)"
proof -
  assume n: "0 \<le> n"
  have "pow2 n * pow2 (- n) = pow2 (n + - n)" by (rule pow2_add [symmetric])
  also have "\<dots> = 1" by (simp add: pow2_def)
  finally have one: "pow2 n * pow2 (- n) = 1" .
  from n have "pow2 n = of_int (2 ^ nat n)" by (simp add: pow2_def)
  with one have "of_int (2 ^ nat n) * pow2 (- n) = 1" by simp
  then have "(of_int m :: rat) = of_int m * (of_int (2 ^ nat n) * pow2 (- n))" by simp
  also have "\<dots> = of_int (m * 2 ^ nat n) * pow2 (- n)" by (simp only: of_int_mult mult.assoc)
  finally show ?thesis by blast
qed

lemma grid_diff:
  assumes "\<exists>k. a = of_int k * g" and "\<exists>k. b = of_int k * g"
  shows "\<exists>k. a - b = of_int k * (g :: rat)"
proof -
  from assms obtain k l where "a = of_int k * g" "b = of_int l * g" by blast
  then have "a - b = of_int (k - l) * g" by (simp add: algebra_simps)
  then show ?thesis by blast
qed

lemma grid_nonzero_ge:
  assumes "x = of_int k * g" and "x \<noteq> 0" and "0 < (g :: rat)"
  shows "g \<le> \<bar>x\<bar>"
proof -
  from assms have "k \<noteq> 0" by auto
  then have "1 \<le> \<bar>k\<bar>" by simp
  then have "(1 :: rat) \<le> of_int \<bar>k\<bar>" by (simp only: of_int_1_le_iff)
  then have "1 * g \<le> of_int \<bar>k\<bar> * g" using assms(3) by (intro mult_right_mono) simp_all
  with assms(1,3) show ?thesis by (simp add: abs_mult)
qed

lemma strictNe_Fin: "\<not> isNaN v \<Longrightarrow> c \<noteq> 0 \<Longrightarrow> strictNe v (Fin c) = (v \<noteq> Fin c)"
  by (cases v) (auto simp: strictNe_def)

lemma roundDouble_100: "roundDouble 100 = Fin 100"
  using roundDouble_of_int [of 100] by simp

lemma sub_from_100:
  assumes nan: "\<not> isNaN v" and grid: "\<And>p. v = Fin p \<Longrightarrow> \<exists>k. p = of_int k * pow2 (- 1074)"
  shows "(jssub (Fin 100) v = Fin 0) = (v = Fin 100) \<and> \<not> isNaN (jssub (Fin 100) v)"
proof (cases v)
  case (Fin p)
  have val: "valueOf (jsneg (Fin p)) = - p" by simp
  have fin: "isFinite (jsneg (Fin p))" "\<not> isNaN (jsneg (Fin p))" "jsneg (Fin p) \<noteq> NegZero \<or> True"
    by simp_all
  show ?thesis
  proof (cases "p = 100")
    case True
    with Fin show ?thesis by (simp add: jssub_def jsadd_def signedZero_def)
  next
    case False
    then have ne: "100 - p \<noteq> 0" by simp
    from grid [OF Fin] have gp: "\<exists>k. p = of_int k * pow2 (- 1074)" .
    have "\<exists>k. (of_int 100 :: rat) = of_int k * pow2 (- 1074)" by (rule int_on_grid) simp
    then have g100: "\<exists>k. (100 :: rat) = of_int k * pow2 (- 1074)" by simp
    from grid_diff [OF g100 gp] obtain k where k: "100 - p = of_int k * pow2 (- 1074)" by blast
    from grid_nonzero_ge [OF k ne] have "pow2 (- 1074) \<le> \<bar>100 - p\<bar>" by simp
    from roundDouble_nonzero [OF ne this] have nz: "\<not> isZero (roundDouble (100 - p))" .
    have sub: "jssub (Fin 100) (Fin p) = roundDouble (100 - p)"
      using ne by (simp add: jssub_def jsadd_def)
    from nz have "roundDouble (100 - p) \<noteq> Fin 0" by auto
    with Fin False sub show ?thesis by simp
  qed
next
  case NegZero
  then show ?thesis by (simp add: jssub_def jsadd_def roundDouble_100)
next
  case PosInf
  then show ?thesis by (simp add: jssub_def jsadd_def)
next
  case NegInf
  then show ?thesis by (simp add: jssub_def jsadd_def)
next
  case NaN
  with nan show ?thesis by simp
qed

lemma jsmul_finite: "isFinite a \<Longrightarrow> isFinite b \<Longrightarrow> \<not> isNaN (jsmul a b)"
  by (simp add: jsmul_def signedZero_def isFinite_not_isNaN)

lemma jsround_not_NaN: "\<not> isNaN a \<Longrightarrow> \<not> isNaN (jsround a)"
  by (cases a) (simp_all add: signedZero_def)

lemma jsdiv_by_10:
  assumes "\<not> isNaN x"
  shows "\<not> isNaN (jsdiv x (Fin 10))"
    and "jsdiv x (Fin 10) = Fin p \<Longrightarrow> \<exists>k. p = of_int k * pow2 (- 1074)"
proof -
  show "\<not> isNaN (jsdiv x (Fin 10))"
    using assms by (cases x) (simp_all add: jsdiv_def signedZero_def signedInf_def)
  assume r: "jsdiv x (Fin 10) = Fin p"
  show "\<exists>k. p = of_int k * pow2 (- 1074)"
  proof (cases "isFinite x \<and> \<not> isZero x")
    case True
    with r have "roundDouble (valueOf x / 10) = Fin p"
      by (simp add: jsdiv_def isFinite_not_isNaN)
    then show ?thesis by (rule roundDouble_grid)
  next
    case False
    with r assms have "p = 0"
      by (cases x) (auto simp: jsdiv_def signedZero_def signedInf_def split: if_splits)
    then have "p = of_int 0 * pow2 (- 1074)" by simp
    then show ?thesis by blast
  qed
qed

text \<open>
  C6. For every susceptibility element, with the raw multiplier read from its value
  (1 when there is none to parse), \<open>pct = round(raw * 1000) / 10\<close> and
  \<open>display = 100 - pct\<close>, all three in the arithmetic of doubles: no trait is pushed
  when \<open>display\<close> is 0; otherwise the trait is the type, a blank, and in parentheses
  \<open>display\<close> as the language prints it with a percent sign, with a plus sign in front
  when \<open>display\<close> is positive. The traits of all susceptibility elements stand in
  \<open>special\<close> in document order. A raw value of 0.8 gives \<open>+20%\<close>, a raw value of 1.0
  gives no trait.
\<close>

theorem susceptibility_trait:
  "susTrait sus =
     (let raw = parseNumberDefault (getAttribute (sus_value sus)) (Fin 1);
          pct = jsdiv (jsround (jsmul raw (Fin 1000))) (Fin 10);
          display = jssub (Fin 100) pct
      in if display = Fin 0 then []
         else [Str (toStr (getAttribute (sus_type sus)) @ '' ('' @
                    (if jsgt display (Fin 0) then ''+'' else []) @
                    numToString display @ ''%)'')]) \<and>
   (\<forall>sp. specialTraits cn bag suss it = Inr sp \<longrightarrow>
      (\<exists>before after. sp = before @ concat (map susTrait suss) @ after))"
proof -
  let ?raw = "parseNumberDefault (getAttribute (sus_value sus)) (Fin 1)"
  let ?pct = "jsdiv (jsround (jsmul ?raw (Fin 1000))) (Fin 10)"
  have "isFinite ?raw" by (simp add: parseNumberDefault_isFinite)
  then have "\<not> isNaN (jsmul ?raw (Fin 1000))" by (simp add: jsmul_finite)
  then have r: "\<not> isNaN (jsround (jsmul ?raw (Fin 1000)))" by (rule jsround_not_NaN)
  from jsdiv_by_10 [OF r] have nan: "\<not> isNaN ?pct"
    and grid: "\<And>p. ?pct = Fin p \<Longrightarrow> \<exists>k. p = of_int k * pow2 (- 1074)"
    by blast+
  from sub_from_100 [OF nan grid] have zero: "(jssub (Fin 100) ?pct = Fin 0) = (?pct = Fin 100)"
    by blast
  from strictNe_Fin [OF nan] have ne: "strictNe ?pct (Fin 100) = (?pct \<noteq> Fin 100)" by simp
  have first: "susTrait sus =
     (let raw = parseNumberDefault (getAttribute (sus_value sus)) (Fin 1);
          pct = jsdiv (jsround (jsmul raw (Fin 1000))) (Fin 10);
          display = jssub (Fin 100) pct
      in if display = Fin 0 then []
         else [Str (toStr (getAttribute (sus_type sus)) @ '' ('' @
                    (if jsgt display (Fin 0) then ''+'' else []) @
                    numToString display @ ''%)'')])"
    unfolding susTrait_def Let_def ne zero by simp
  have second: "\<exists>before after. sp = before @ concat (map susTrait suss) @ after"
    if "specialTraits cn bag suss it = Inr sp" for sp
  proof -
    from that obtain st where "sp = (natureTraits bag @ st) @ concat (map susTrait suss) @
        (lifestealTraits bag @ atkTraits cn it @ defTraits cn it @ rangeTraits cn it @
         consumeTraits bag)"
      by (auto simp: specialTraits_def susTraits_def split: sum.splits)
    then show ?thesis by blast
  qed
  from first second show ?thesis by blast
qed

theorem susceptibility_trait_witness:
  "susTrait \<lparr> sus_type = Some ''fire'', sus_value = Some ''0.8'' \<rparr> = [Str ''fire (+20%)''] \<and>
   susTrait \<lparr> sus_type = Some ''fire'', sus_value = Some ''1.0'' \<rparr> = [] \<and>
   susTrait \<lparr> sus_type = Some ''ice'', sus_value = Some ''1.25'' \<rparr> = [Str ''ice (-25%)''] \<and>
   susTrait \<lparr> sus_type = Some ''fire'', sus_value = Some ''0.701'' \<rparr> =
     [Str ''fire (+29.900000000000006%)''] \<and>
   susTrait \<lparr> sus_type = Some ''fire'', sus_value = Some ''0.9996'' \<rparr> = [] \<and>
   specialTraits ''weapons'' [(''damagetype'', Some ''cut'')]
     [\<lparr> sus_type = Some ''fire'', sus_value = Some ''0.8'' \<rparr>]
     \<lparr> item_name = Str ''club'', item_class = Str ''club'', item_image = Str ''club'',
       item_value = Str ''0'', item_level = Fin 0, item_rate = Fin 0, item_atk = Fin 0,
       item_def = Fin 2, item_range = Fin 0, item_dpt = NaN, item_special = [] \<rparr> =
     Inr [Str ''cut'', Str ''fire (+20%)'', Str ''def (2)''] \<and>
   (\<exists>before after. [Str ''cut'', Str ''fire (+20%)'', Str ''def (2)''] =
      before @ concat (map susTrait [\<lparr> sus_type = Some ''fire'', sus_value = Some ''0.8'' \<rparr>]) @
      after)"
proof -
  let ?it = "\<lparr> item_name = Str ''club'', item_class = Str ''club'', item_image = Str ''club'',
       item_value = Str ''0'', item_level = Fin 0, item_rate = Fin 0, item_atk = Fin 0,
       item_def = Fin 2, item_range = Fin 0, item_dpt = NaN, item_special = [] \<rparr>"
  note t1 = susceptibility_trait [of "\<lparr> sus_type = Some ''fire'', sus_value = Some ''0.8'' \<rparr>",
      THEN conjunct1]
  note t2 = susceptibility_trait [of "\<lparr> sus_type = Some ''fire'', sus_value = Some ''1.0'' \<rparr>",
      THEN conjunct1]
  note t3 = susceptibility_trait [of "\<lparr> sus_type = Some ''ice'', sus_value = Some ''1.25'' \<rparr>",
      THEN conjunct1]
  note t4 = susceptibility_trait [of "\<lparr> sus_type = Some ''fire'', sus_value = Some ''0.701'' \<rparr>",
      THEN conjunct1]
  note t5 = susceptibility_trait [of "\<lparr> sus_type = Some ''fire'', sus_value = Some ''0.9996'' \<rparr>",
      THEN conjunct1]
  have w1: "susTrait \<lparr> sus_type = Some ''fire'', sus_value = Some ''0.8'' \<rparr> = [Str ''fire (+20%)'']"
    unfolding t1 by code_simp
  have w2: "susTrait \<lparr> sus_type = Some ''fire'', sus_value = Some ''1.0'' \<rparr> = []"
    unfolding t2 by code_simp
  have w3: "susTrait \<lparr> sus_type = Some ''ice'', sus_value = Some ''1.25'' \<rparr> = [Str ''ice (-25%)'']"
    unfolding t3 by code_simp
  have w4: "susTrait \<lparr> sus_type = Some ''fire'', sus_value = Some ''0.701'' \<rparr> =
      [Str ''fire (+29.900000000000006%)'']"
    unfolding t4 by code_simp
  have w5: "susTrait \<lparr> sus_type = Some ''fire'', sus_value = Some ''0.9996'' \<rparr> = []"
    unfolding t5 by code_simp
  have sp: "specialTraits ''weapons'' [(''damagetype'', Some ''cut'')]
     [\<lparr> sus_type = Some ''fire'', sus_value = Some ''0.8'' \<rparr>] ?it =
     Inr [Str ''cut'', Str ''fire (+20%)'', Str ''def (2)'']"
    by code_simp
  from sp w1 w2 w3 w4 w5
    susceptibility_trait [of _ "''weapons''" "[(''damagetype'', Some ''cut'')]"
      "[\<lparr> sus_type = Some ''fire'', sus_value = Some ''0.8'' \<rparr>]" ?it, THEN conjunct2]
  show ?thesis by blast
qed

section \<open>The consumable traits\<close>

lemma map_of_filter_key:
  "map_of (filter (\<lambda>e. fst e \<noteq> k) bag) n = (if n = k then None else map_of bag n)"
  by (induction bag) auto

lemma numberAttribute_filter:
  "n \<noteq> k \<Longrightarrow> numberAttribute (filter (\<lambda>e. fst e \<noteq> k) bag) n d = numberAttribute bag n d"
  by (simp add: numberAttribute_def map_of_filter_key)

lemma stringAttribute_filter:
  "n \<noteq> k \<Longrightarrow> stringAttribute (filter (\<lambda>e. fst e \<noteq> k) bag) n = stringAttribute bag n"
  by (simp add: stringAttribute_def map_of_filter_key)

lemma stringAttribute_filter_same:
  "stringAttribute (filter (\<lambda>e. fst e \<noteq> k) bag) k = Undefined"
  by (simp add: stringAttribute_def map_of_filter_key)

text \<open>
  C10. For every item whose \<open>amount\<close> is not zero and whose \<open>immunization\<close> element
  is present with the empty string as value, the consumable branch does what it does
  with no \<open>immunization\<close> element: it pushes the heal or hurt trait, then regen and
  frequency when the frequency is not 1 or the regen differs from the amount, and no
  cure or immunity duration trait. The whole \<open>special\<close> list is that of the bag without
  the element.
\<close>

theorem empty_immunization_as_absent:
  assumes imm: "map_of bag ''immunization'' = Some (Some [])"
    and amount: "strictNe (numberAttribute bag ''amount'' (Fin 0)) (Fin 0)"
  shows "consumeTraits bag = consumeTraits (filter (\<lambda>e. fst e \<noteq> ''immunization'') bag) \<and>
     consumeTraits bag =
       (let consumeAmount = numberAttribute bag ''amount'' (Fin 0);
            regen = numberAttribute bag ''regen'' (Fin 0);
            frequency = numberAttribute bag ''frequency'' (Fin 0)
        in Str ((if jsgt consumeAmount (Fin 0) then ''heal'' else ''hurt'') @ '' ('' @
                numToString consumeAmount @ '')'') #
           (if strictNe frequency (Fin 1) \<or> strictNe regen consumeAmount
            then [Str (''regen ('' @ numToString regen @ '')''),
                  Str (''frequency ('' @ numToString frequency @ '')'')]
            else [])) \<and>
     (\<forall>s. Str s \<in> set (consumeTraits bag) \<longrightarrow>
        \<not> startsWith s ''cure ('' \<and> \<not> startsWith s ''immunity duration ('') \<and>
     specialTraits cn bag suss it =
       specialTraits cn (filter (\<lambda>e. fst e \<noteq> ''immunization'') bag) suss it"
proof -
  let ?bag' = "filter (\<lambda>e. fst e \<noteq> ''immunization'') bag"
  have cures: "stringAttribute bag ''immunization'' = Str []"
    using imm by (simp add: stringAttribute_def)
  have explicit: "consumeTraits bag =
       (let consumeAmount = numberAttribute bag ''amount'' (Fin 0);
            regen = numberAttribute bag ''regen'' (Fin 0);
            frequency = numberAttribute bag ''frequency'' (Fin 0)
        in Str ((if jsgt consumeAmount (Fin 0) then ''heal'' else ''hurt'') @ '' ('' @
                numToString consumeAmount @ '')'') #
           (if strictNe frequency (Fin 1) \<or> strictNe regen consumeAmount
            then [Str (''regen ('' @ numToString regen @ '')''),
                  Str (''frequency ('' @ numToString frequency @ '')'')]
            else []))"
    using amount by (simp add: consumeTraits_def cures Let_def)
  have same: "consumeTraits bag = consumeTraits ?bag'"
    unfolding explicit
    using amount
    by (simp add: consumeTraits_def numberAttribute_filter stringAttribute_filter_same Let_def)
  have nocure: "\<not> startsWith s ''cure ('' \<and> \<not> startsWith s ''immunity duration (''"
    if "Str s \<in> set (consumeTraits bag)" for s
    using that unfolding explicit by (auto simp: Let_def split: if_splits)
  have nature: "natureTraits ?bag' = natureTraits bag"
    by (simp add: natureTraits_def stringAttribute_filter)
  have status: "statusTraits ?bag' = statusTraits bag"
    by (simp add: statusTraits_def stringAttribute_filter)
  have lifesteal: "lifestealTraits ?bag' = lifestealTraits bag"
    by (simp add: lifestealTraits_def numberAttribute_filter)
  have whole: "specialTraits cn bag suss it = specialTraits cn ?bag' suss it"
    unfolding specialTraits_def nature status lifesteal same [symmetric] ..
  from same explicit nocure whole show ?thesis by blast
qed

theorem empty_immunization_as_absent_witness:
  "map_of [(''amount'', Some ''-5''), (''immunization'', Some [])] ''immunization'' = Some (Some []) \<and>
   strictNe (numberAttribute [(''amount'', Some ''-5''), (''immunization'', Some [])] ''amount'' (Fin 0))
     (Fin 0) \<and>
   consumeTraits [(''amount'', Some ''-5''), (''immunization'', Some [])] =
     consumeTraits [(''amount'', Some ''-5'')] \<and>
   consumeTraits [(''amount'', Some ''-5''), (''immunization'', Some [])] =
     [Str ''hurt (-5)'', Str ''regen (0)'', Str ''frequency (0)'']"
proof -
  let ?bag = "[(''amount'', Some ''-5''), (''immunization'', Some [])]"
  have h1: "map_of ?bag ''immunization'' = Some (Some [])"
    by simp
  have h2: "strictNe (numberAttribute ?bag ''amount'' (Fin 0)) (Fin 0)"
    by code_simp
  have f: "filter (\<lambda>e. fst e \<noteq> ''immunization'') ?bag = [(''amount'', Some ''-5'')]"
    by simp
  have v: "consumeTraits [(''amount'', Some ''-5'')] =
      [Str ''hurt (-5)'', Str ''regen (0)'', Str ''frequency (0)'']"
    by code_simp
  from empty_immunization_as_absent [OF h1 h2]
  have "consumeTraits ?bag = consumeTraits [(''amount'', Some ''-5'')]"
    unfolding f by blast
  with h1 h2 v show ?thesis by simp
qed

section \<open>Popping a record off the collection\<close>

lemma popLoop_None: "(popLoop n xs idx = None) = (\<forall>x\<in>set xs. item_name x \<noteq> n)"
  by (induction xs arbitrary: idx) auto

lemma popLoop_Some:
  "popLoop n xs idx = Some (i, x) \<Longrightarrow>
   \<exists>pre post. xs = pre @ x # post \<and> item_name x = n \<and>
     (\<forall>y\<in>set pre. item_name y \<noteq> n) \<and> i = idx + length pre"
proof (induction xs arbitrary: idx)
  case Nil
  then show ?case by simp
next
  case (Cons a xs)
  show ?case
  proof (cases "item_name a = n")
    case True
    with Cons.prems have "i = idx" "x = a" by simp_all
    with True have "a # xs = [] @ x # xs \<and> item_name x = n \<and>
        (\<forall>y\<in>set []. item_name y \<noteq> n) \<and> i = idx + length ([] :: item list)"
      by simp
    then show ?thesis by blast
  next
    case False
    with Cons.prems have "popLoop n xs (Suc idx) = Some (i, x)" by simp
    from Cons.IH [OF this] obtain pre post where
      "xs = pre @ x # post" "item_name x = n" "\<forall>y\<in>set pre. item_name y \<noteq> n"
      "i = Suc idx + length pre" by blast
    with False have "a # xs = (a # pre) @ x # post \<and> item_name x = n \<and>
        (\<forall>y\<in>set (a # pre). item_name y \<noteq> n) \<and> i = idx + length (a # pre)"
      by simp
    then show ?thesis by blast
  qed
qed

lemma pop_None: "(fst (pop n m) = None) = (\<forall>x\<in>set (items m). item_name x \<noteq> Str n)"
proof (cases "popLoop (Str n) (items m) 0")
  case None
  then have "\<forall>x\<in>set (items m). item_name x \<noteq> Str n"
    using popLoop_None [of "Str n" "items m" 0] by simp
  moreover from None have "fst (pop n m) = None"
    by (simp add: pop_def)
  ultimately show ?thesis by simp
next
  case (Some a)
  then have "\<not> (\<forall>x\<in>set (items m). item_name x \<noteq> Str n)"
    using popLoop_None [of "Str n" "items m" 0] by simp
  with Some show ?thesis by (simp add: pop_def split: prod.splits)
qed

lemma pop_None_state: "pop n m = (None, m') \<Longrightarrow> m' = m"
  by (auto simp: pop_def split: option.splits)

lemma pop_Some:
  assumes "pop n m = (Some x, m')"
  shows "\<exists>pre post. items m = pre @ x # post \<and> item_name x = Str n \<and>
     (\<forall>y\<in>set pre. item_name y \<noteq> Str n) \<and> m' = m\<lparr> items := pre @ post \<rparr>"
proof -
  from assms obtain i where loop: "popLoop (Str n) (items m) 0 = Some (i, x)"
    and m': "m' = m\<lparr> items := take i (items m) @ drop (Suc i) (items m) \<rparr>"
    by (auto simp: pop_def split: option.splits)
  from popLoop_Some [OF loop] obtain pre post where
    xs: "items m = pre @ x # post" and n: "item_name x = Str n"
    and pre: "\<forall>y\<in>set pre. item_name y \<noteq> Str n" and i: "i = length pre"
    by auto
  from xs i have "take i (items m) @ drop (Suc i) (items m) = pre @ post" by simp
  with m' xs n pre show ?thesis by auto
qed

lemma popOtherHalf_frame:
  "popOtherHalf it m = (lr, m1) \<Longrightarrow>
   className m1 = className m \<and> showUnattainable m1 = showUnattainable m \<and>
   set (items m1) \<subseteq> set (items m) \<and> (case lr of None \<Rightarrow> True | Some x \<Rightarrow> x \<in> set (items m))"
proof (cases lr)
  case None
  assume "popOtherHalf it m = (lr, m1)"
  with None have "m1 = m"
    by (auto simp: popOtherHalf_def dest: pop_None_state split: if_splits)
  with None show ?thesis by simp
next
  case (Some x)
  assume "popOtherHalf it m = (lr, m1)"
  with Some obtain n where "pop n m = (Some x, m1)"
    by (auto simp: popOtherHalf_def split: if_splits)
  from pop_Some [OF this] Some show ?thesis by auto
qed

section \<open>One round of the loop\<close>

lemma parseItem_unfold:
  assumes "node_type nd = Some ti" and "node_attributes nd = Some bag"
    and "popOtherHalf (freshItem nd ti bag) m = (lr, m1)"
  shows "parseItem m nd =
     (case specialTraits (className m1) bag (node_susceptibility nd)
             (assignDpt (mergeHalves lr (freshItem nd ti bag))) of
        Inl e \<Rightarrow> (Some e, m1)
      | Inr sp \<Rightarrow>
          (if node_unattainable nd \<and> \<not> showUnattainable m1 then (None, m1)
           else (None, m1\<lparr> items := items m1 @
                   [(assignDpt (mergeHalves lr (freshItem nd ti bag)))\<lparr> item_special := sp \<rparr>] \<rparr>)))"
  using assms by (simp add: parseItem_def Let_def)

lemma parseItem_None:
  assumes "parseItem m nd = (None, m')"
  obtains ti bag lr m1 sp where
    "node_type nd = Some ti" and "node_attributes nd = Some bag"
    and "popOtherHalf (freshItem nd ti bag) m = (lr, m1)"
    and "specialTraits (className m1) bag (node_susceptibility nd)
           (assignDpt (mergeHalves lr (freshItem nd ti bag))) = Inr sp"
    and "m' = (if node_unattainable nd \<and> \<not> showUnattainable m1 then m1
               else m1\<lparr> items := items m1 @
                      [(assignDpt (mergeHalves lr (freshItem nd ti bag)))\<lparr> item_special := sp \<rparr>] \<rparr>)"
proof -
  from assms obtain ti where ti: "node_type nd = Some ti"
    by (cases "node_type nd") (simp_all add: parseItem_def)
  from assms ti obtain bag where bag: "node_attributes nd = Some bag"
    by (cases "node_attributes nd") (simp_all add: parseItem_def)
  obtain lr m1 where pop: "popOtherHalf (freshItem nd ti bag) m = (lr, m1)"
    by (cases "popOtherHalf (freshItem nd ti bag) m")
  note u = parseItem_unfold [OF ti bag pop]
  from assms u obtain sp where sp: "specialTraits (className m1) bag (node_susceptibility nd)
           (assignDpt (mergeHalves lr (freshItem nd ti bag))) = Inr sp"
    by (cases "specialTraits (className m1) bag (node_susceptibility nd)
           (assignDpt (mergeHalves lr (freshItem nd ti bag)))") simp_all
  from assms u sp have "m' = (if node_unattainable nd \<and> \<not> showUnattainable m1 then m1
               else m1\<lparr> items := items m1 @
                      [(assignDpt (mergeHalves lr (freshItem nd ti bag)))\<lparr> item_special := sp \<rparr>] \<rparr>)"
    by (auto split: if_splits)
  with ti bag pop sp that show thesis by blast
qed

lemma parseItem_Some:
  assumes "parseItem m nd = (Some e, m')"
  shows "set (items m') \<subseteq> set (items m)"
proof (cases "node_type nd")
  case None
  with assms show ?thesis by (simp add: parseItem_def)
next
  case (Some ti)
  note ti = this
  show ?thesis
  proof (cases "node_attributes nd")
    case None
    with assms ti show ?thesis by (simp add: parseItem_def)
  next
    case (Some bag)
    obtain lr m1 where pop: "popOtherHalf (freshItem nd ti bag) m = (lr, m1)"
      by (cases "popOtherHalf (freshItem nd ti bag) m")
    note u = parseItem_unfold [OF ti Some pop]
    from assms u have "m' = m1"
      by (cases "specialTraits (className m1) bag (node_susceptibility nd)
           (assignDpt (mergeHalves lr (freshItem nd ti bag)))") (simp_all split: if_splits)
    with popOtherHalf_frame [OF pop] show ?thesis by simp
  qed
qed

lemma jsadd_not_NaN: "\<not> isNaN a \<Longrightarrow> isFinite b \<Longrightarrow> \<not> isNaN (jsadd a b)"
  by (cases a; cases b) (simp_all add: jsadd_def signedZero_def)

lemma freshItem_finite:
  "isFinite (item_level (freshItem nd ti bag)) \<and> isFinite (item_rate (freshItem nd ti bag)) \<and>
   isFinite (item_atk (freshItem nd ti bag)) \<and> isFinite (item_def (freshItem nd ti bag)) \<and>
   isFinite (item_range (freshItem nd ti bag))"
  by (simp add: freshItem_def numberAttribute_isFinite)

section \<open>Damage per turn\<close>

lemma dptInv_built:
  assumes "case lr of None \<Rightarrow> True | Some x \<Rightarrow> dptInv x"
  shows "dptInv ((assignDpt (mergeHalves lr (freshItem nd ti bag)))\<lparr> item_special := sp \<rparr>)"
proof (cases lr)
  case None
  then show ?thesis
    using freshItem_finite [of nd ti bag]
    by (simp add: dptInv_def assignDpt_def mergeHalves_def isFinite_not_isNaN)
next
  case (Some x)
  with assms have "\<not> isNaN (item_atk x)" "isFinite (item_rate x)" by (simp_all add: dptInv_def)
  with Some show ?thesis
    using freshItem_finite [of nd ti bag]
    by (simp add: dptInv_def assignDpt_def mergeHalves_def jsadd_not_NaN)
qed

lemma parseItem_invariant:
  assumes run: "parseItem m nd = (e, m')" and init: "\<forall>r\<in>set (items m). P r"
    and built: "\<And>lr ti bag sp. (case lr of None \<Rightarrow> True | Some x \<Rightarrow> P x) \<Longrightarrow>
       P ((assignDpt (mergeHalves lr (freshItem nd ti bag)))\<lparr> item_special := sp \<rparr>)"
  shows "\<forall>r\<in>set (items m'). P r"
proof (cases e)
  case (Some err)
  with run have "set (items m') \<subseteq> set (items m)" by (simp add: parseItem_Some)
  with init show ?thesis by blast
next
  case None
  with run have "parseItem m nd = (None, m')" by simp
  then show ?thesis
  proof (rule parseItem_None)
    fix ti bag lr m1 sp
    assume pop: "popOtherHalf (freshItem nd ti bag) m = (lr, m1)"
      and m': "m' = (if node_unattainable nd \<and> \<not> showUnattainable m1 then m1
               else m1\<lparr> items := items m1 @
                      [(assignDpt (mergeHalves lr (freshItem nd ti bag)))\<lparr> item_special := sp \<rparr>] \<rparr>)"
    from popOtherHalf_frame [OF pop] init
    have rest: "\<forall>r\<in>set (items m1). P r"
      and lr: "case lr of None \<Rightarrow> True | Some x \<Rightarrow> P x"
      by (auto split: option.splits)
    note new = built [OF lr]
    show ?thesis
    proof (cases "node_unattainable nd \<and> \<not> showUnattainable m1")
      case True
      with m' rest show ?thesis by simp
    next
      case False
      with m' have "set (items m') = set (items m1) \<union>
          {(assignDpt (mergeHalves lr (freshItem nd ti bag)))\<lparr> item_special := sp \<rparr>}"
        by simp
      with rest new show ?thesis by blast
    qed
  qed
qed

lemma parseItems_invariant:
  assumes "parseItems m nodes = (e, m')" and "\<forall>r\<in>set (items m). P r"
    and built: "\<And>lr nd ti bag sp. (case lr of None \<Rightarrow> True | Some x \<Rightarrow> P x) \<Longrightarrow>
       P ((assignDpt (mergeHalves lr (freshItem nd ti bag)))\<lparr> item_special := sp \<rparr>)"
  shows "\<forall>r\<in>set (items m'). P r"
  using assms(1,2)
proof (induction nodes arbitrary: m)
  case Nil
  then show ?case by simp
next
  case (Cons nd nodes)
  obtain e1 m1 where step: "parseItem m nd = (e1, m1)" by (cases "parseItem m nd")
  from parseItem_invariant [of m nd e1 m1 P, OF step Cons.prems(2) built]
  have inv1: "\<forall>r\<in>set (items m1). P r" .
  show ?case
  proof (cases e1)
    case None
    with step Cons.prems(1) have "parseItems m1 nodes = (e, m')" by simp
    from Cons.IH [OF this inv1] show ?thesis .
  next
    case (Some err)
    with step Cons.prems(1) have "m' = m1" by simp
    with inv1 show ?thesis by simp
  qed
qed

lemma dptOf_zero_rate:
  assumes "\<not> isNaN a" and "isFinite q" and "isZero q"
  shows "dptOf a q = (if isZero a then NaN else signedInf (signBit a \<noteq> signBit q))"
  using assms
  by (cases a; cases q) (simp_all add: dptOf_def jsdiv_def jsmul_def signedInf_def)

lemma dptOf_nonzero_rate:
  assumes "\<not> isNaN a" and "isFinite q" and "\<not> isZero q"
  shows "\<not> isNaN (dptOf a q)"
proof -
  have d: "\<not> isNaN (jsdiv a q)"
    using assms by (cases a; cases q) (simp_all add: jsdiv_def signedInf_def signedZero_def)
  have m: "\<not> isNaN x \<Longrightarrow> \<not> isNaN (jsmul x (Fin 100))" for x
    by (cases x) (simp_all add: jsmul_def signedInf_def signedZero_def)
  have v: "\<not> isNaN x \<Longrightarrow> \<not> isNaN (jsdiv x (Fin 100))" for x
    by (cases x) (simp_all add: jsdiv_def signedInf_def signedZero_def)
  from d show ?thesis unfolding dptOf_def by (intro v jsround_not_NaN m)
qed

lemma signedInf_not_finite: "\<not> isFinite (signedInf s)"
  by (simp add: signedInf_def)

text \<open>
  C2, as stated, at two items with no \<open>rate\<close> attribute: the rate is 0, and the
  \<open>dpt\<close> of the record is NaN for an \<open>atk\<close> of 0 and Infinity for an \<open>atk\<close> of 2.
  No fallback value takes their place.
\<close>

theorem dpt_unguarded_counterexample:
  "map item_dpt (items (snd (parseItems main_init
      [plainNode ''leather armor'' ''armor'' [(''def'', Some ''5'')],
       plainNode ''wooden arrow'' ''ammunition'' [(''atk'', Some ''2'')]]))) = [NaN, PosInf]"
  by code_simp

text \<open>
  C2, amended. After \<open>parseItems\<close> on a collection that was empty, with or without an
  exception, every record of the collection has a finite \<open>rate\<close> and an \<open>atk\<close> that is
  a number, and its \<open>dpt\<close> is \<open>Math.round(atk / rate * 100) / 100\<close> of these two (the
  merged \<open>atk\<close> for the sword pair), each of the three operations in the arithmetic of
  doubles. For a rate other than 0 the \<open>dpt\<close> is a number. For a rate of 0 no fallback
  is put in its place: \<open>dpt\<close> is NaN when \<open>atk\<close> is 0, and otherwise the infinity whose
  sign is the product of the signs of \<open>atk\<close> and of the zero.
\<close>

theorem dpt_of_every_record:
  assumes "parseItems m nodes = (e, m')" and "items m = []"
  shows "\<forall>r\<in>set (items m'). isFinite (item_rate r) \<and> \<not> isNaN (item_atk r) \<and>
      item_dpt r =
        jsdiv (jsround (jsmul (jsdiv (item_atk r) (item_rate r)) (Fin 100))) (Fin 100) \<and>
      (\<not> isZero (item_rate r) \<longrightarrow> \<not> isNaN (item_dpt r)) \<and>
      (isZero (item_rate r) \<longrightarrow> \<not> isFinite (item_dpt r) \<and>
         item_dpt r = (if isZero (item_atk r) then NaN
                       else signedInf (signBit (item_atk r) \<noteq> signBit (item_rate r))))"
proof
  fix r
  assume r: "r \<in> set (items m')"
  from assms(2) have "\<forall>r\<in>set (items m). dptInv r" by simp
  from parseItems_invariant [of m nodes e m' dptInv, OF assms(1) this dptInv_built] r
  have inv: "dptInv r" by blast
  then have q: "isFinite (item_rate r)" and a: "\<not> isNaN (item_atk r)"
    and dpt: "item_dpt r = dptOf (item_atk r) (item_rate r)"
    by (simp_all add: dptInv_def)
  have nz: "\<not> isZero (item_rate r) \<longrightarrow> \<not> isNaN (item_dpt r)"
    using dpt dptOf_nonzero_rate [OF a q] by simp
  have z: "isZero (item_rate r) \<longrightarrow> \<not> isFinite (item_dpt r) \<and>
         item_dpt r = (if isZero (item_atk r) then NaN
                       else signedInf (signBit (item_atk r) \<noteq> signBit (item_rate r)))"
    using dpt dptOf_zero_rate [OF a q] by (simp add: signedInf_not_finite)
  have d: "item_dpt r =
      jsdiv (jsround (jsmul (jsdiv (item_atk r) (item_rate r)) (Fin 100))) (Fin 100)"
    using dpt by (simp only: dptOf_def)
  from a q d nz z
  show "isFinite (item_rate r) \<and> \<not> isNaN (item_atk r) \<and>
      item_dpt r =
        jsdiv (jsround (jsmul (jsdiv (item_atk r) (item_rate r)) (Fin 100))) (Fin 100) \<and>
      (\<not> isZero (item_rate r) \<longrightarrow> \<not> isNaN (item_dpt r)) \<and>
      (isZero (item_rate r) \<longrightarrow> \<not> isFinite (item_dpt r) \<and>
         item_dpt r = (if isZero (item_atk r) then NaN
                       else signedInf (signBit (item_atk r) \<noteq> signBit (item_rate r))))"
    by blast
qed

theorem dpt_of_every_record_witness:
  "items main_init = [] \<and>
   map (\<lambda>r. (item_name r, numToString (item_atk r), numToString (item_rate r),
              numToString (item_dpt r)))
     (items (snd (parseItems main_init
        [plainNode ''l hand sword'' ''sword'' [(''atk'', Some ''5''), (''rate'', Some ''4'')],
         plainNode ''r hand sword'' ''sword'' [(''atk'', Some ''8''), (''rate'', Some ''3'')],
         plainNode ''hunter crossbow'' ''ranged'' [(''atk'', Some ''23''), (''rate'', Some ''40'')],
         plainNode ''dagger'' ''sword'' [(''atk'', Some ''1.005''), (''rate'', Some ''1'')],
         plainNode ''club'' ''club'' [(''atk'', Some ''5''), (''rate'', Some ''-0'')],
         plainNode ''leather armor'' ''armor'' [(''def'', Some ''5'')]]))) =
     [(Str ''l/r hand swords'', ''13'', ''4'', ''3.25''),
      (Str ''hunter crossbow'', ''23'', ''40'', ''0.57''),
      (Str ''dagger'', ''1.005'', ''1'', ''1''),
      (Str ''club'', ''5'', ''0'', ''-Infinity''),
      (Str ''leather armor'', ''0'', ''0'', ''NaN'')]"
proof -
  let ?nodes = "[plainNode ''l hand sword'' ''sword'' [(''atk'', Some ''5''), (''rate'', Some ''4'')],
         plainNode ''r hand sword'' ''sword'' [(''atk'', Some ''8''), (''rate'', Some ''3'')],
         plainNode ''hunter crossbow'' ''ranged'' [(''atk'', Some ''23''), (''rate'', Some ''40'')],
         plainNode ''dagger'' ''sword'' [(''atk'', Some ''1.005''), (''rate'', Some ''1'')],
         plainNode ''club'' ''club'' [(''atk'', Some ''5''), (''rate'', Some ''-0'')],
         plainNode ''leather armor'' ''armor'' [(''def'', Some ''5'')]]"
  have init: "items main_init = []" by (simp add: main_init_def)
  have run: "parseItems main_init ?nodes =
      (fst (parseItems main_init ?nodes), snd (parseItems main_init ?nodes))"
    by simp
  have ev: "map (\<lambda>r. (item_name r, numToString (item_atk r), numToString (item_rate r),
              numToString (item_dpt r)))
      (items (snd (parseItems main_init ?nodes))) =
     [(Str ''l/r hand swords'', ''13'', ''4'', ''3.25''),
      (Str ''hunter crossbow'', ''23'', ''40'', ''0.57''),
      (Str ''dagger'', ''1.005'', ''1'', ''1''),
      (Str ''club'', ''5'', ''0'', ''-Infinity''),
      (Str ''leather armor'', ''0'', ''0'', ''NaN'')]"
    by code_simp
  from dpt_of_every_record [OF run init] init ev show ?thesis by simp
qed

section \<open>Running to completion\<close>

lemma statusTraits_Inr:
  "stringAttribute bag ''statusattack'' \<noteq> Null \<Longrightarrow> \<exists>st. statusTraits bag = Inr st"
  by (cases "stringAttribute bag ''statusattack''") (simp_all add: statusTraits_def)

lemma specialTraits_Inr:
  "stringAttribute bag ''statusattack'' \<noteq> Null \<Longrightarrow> \<exists>sp. specialTraits cn bag suss it = Inr sp"
  using statusTraits_Inr [of bag] by (auto simp: specialTraits_def)

lemma parseItem_completes:
  assumes "hasRequiredNodes nd"
  shows "fst (parseItem m nd) = None"
proof -
  from assms obtain ti bag where ti: "node_type nd = Some ti"
    and bag: "node_attributes nd = Some bag"
    and st: "stringAttribute bag ''statusattack'' \<noteq> Null"
    by (auto simp: hasRequiredNodes_def split: option.splits)
  obtain lr m1 where pop: "popOtherHalf (freshItem nd ti bag) m = (lr, m1)"
    by (cases "popOtherHalf (freshItem nd ti bag) m")
  from specialTraits_Inr [OF st] obtain sp where
    "specialTraits (className m1) bag (node_susceptibility nd)
       (assignDpt (mergeHalves lr (freshItem nd ti bag))) = Inr sp"
    by blast
  with parseItem_unfold [OF ti bag pop] show ?thesis by simp
qed

lemma parseItems_no_exception:
  "\<forall>nd\<in>set nodes. hasRequiredNodes nd \<Longrightarrow> fst (parseItems m nodes) = None"
proof (induction nodes arbitrary: m)
  case Nil
  then show ?case by simp
next
  case (Cons nd nodes)
  then have "fst (parseItem m nd) = None" by (simp add: parseItem_completes)
  then obtain m1 where "parseItem m nd = (None, m1)" by (cases "parseItem m nd") simp
  with Cons show ?case by simp
qed

text \<open>The sum of two finite doubles can be an infinity, as in the merge of lines 652 and 653.\<close>

lemma exponentOf_ge:
  assumes "0 < q" and "pow2 k \<le> q"
  shows "k \<le> exponentOf q"
proof -
  from exponentOf_bounds [OF assms(1)] assms(2) have "pow2 k < pow2 (exponentOf q + 1)" by simp
  from pow2_less_cancel [OF this] show ?thesis by simp
qed

lemma roundDouble_overflow:
  assumes "pow2 1024 \<le> \<bar>q\<bar>"
  shows "roundDouble q = signedInf (q < 0)"
proof -
  have "(0 :: rat) < pow2 1024" by simp
  from this assms have pos: "0 < \<bar>q\<bar>" by (rule less_le_trans)
  then have nz: "q \<noteq> 0" by simp
  from exponentOf_ge [OF pos assms] have "1024 \<le> max (exponentOf \<bar>q\<bar>) (- 1022)" by simp
  with nz show ?thesis unfolding roundDouble_def Let_def by (simp only: if_False if_True simp_thms)
qed

lemma jsadd_overflow: "jsadd (Fin (pow2 1023)) (Fin (pow2 1023)) = PosInf"
proof -
  have "pow2 1023 + pow2 1023 = pow2 (1023 + 1)" by (simp only: pow2_add) (simp add: pow2_def)
  then have s: "pow2 1023 + pow2 1023 = pow2 1024" by simp
  have "roundDouble (pow2 1024) = signedInf (pow2 1024 < 0)"
    by (rule roundDouble_overflow) simp
  then have "roundDouble (pow2 1024) = PosInf" by (simp add: signedInf_def not_less less_imp_le)
  with s show ?thesis by (simp add: jsadd_def)
qed

lemma statsFinite_built:
  assumes "case lr of None \<Rightarrow> True
     | Some x \<Rightarrow> isFinite (item_level x) \<and> isFinite (item_rate x) \<and> isFinite (item_range x) \<and>
         \<not> isNaN (item_atk x) \<and> \<not> isNaN (item_def x) \<and>
         (item_name x \<noteq> Str ''l/r hand swords'' \<longrightarrow>
            isFinite (item_atk x) \<and> isFinite (item_def x))"
  shows "isFinite (item_level ((assignDpt (mergeHalves lr (freshItem nd ti bag)))\<lparr> item_special := sp \<rparr>)) \<and>
     isFinite (item_rate ((assignDpt (mergeHalves lr (freshItem nd ti bag)))\<lparr> item_special := sp \<rparr>)) \<and>
     isFinite (item_range ((assignDpt (mergeHalves lr (freshItem nd ti bag)))\<lparr> item_special := sp \<rparr>)) \<and>
     \<not> isNaN (item_atk ((assignDpt (mergeHalves lr (freshItem nd ti bag)))\<lparr> item_special := sp \<rparr>)) \<and>
     \<not> isNaN (item_def ((assignDpt (mergeHalves lr (freshItem nd ti bag)))\<lparr> item_special := sp \<rparr>)) \<and>
     (item_name ((assignDpt (mergeHalves lr (freshItem nd ti bag)))\<lparr> item_special := sp \<rparr>)
        \<noteq> Str ''l/r hand swords'' \<longrightarrow>
      isFinite (item_atk ((assignDpt (mergeHalves lr (freshItem nd ti bag)))\<lparr> item_special := sp \<rparr>)) \<and>
      isFinite (item_def ((assignDpt (mergeHalves lr (freshItem nd ti bag)))\<lparr> item_special := sp \<rparr>)))"
proof (cases lr)
  case None
  then show ?thesis
    using freshItem_finite [of nd ti bag]
    by (simp add: assignDpt_def mergeHalves_def isFinite_not_isNaN)
next
  case (Some x)
  with assms show ?thesis
    using freshItem_finite [of nd ti bag]
    by (simp add: assignDpt_def mergeHalves_def jsadd_not_NaN)
qed

text \<open>
  C3, as stated, at three documents of one item: an item with no attributes element, an
  item with no type element, and an item whose \<open>statusattack\<close> element has no value.
  On each \<open>parseItems\<close> throws a TypeError.
\<close>

theorem parseItems_throws_counterexample:
  "parseItems main_init
     [\<lparr> node_name = Some ''club'', node_type = Some \<lparr> class_attr = Some ''club'', subclass_attr = Some ''club'' \<rparr>,
        node_value = Some (Some ''12''), node_attributes = None, node_susceptibility = [],
        node_unattainable = False \<rparr>] = (Some TypeError, main_init) \<and>
   parseItems main_init
     [\<lparr> node_name = Some ''club'', node_type = None,
        node_value = Some (Some ''12''), node_attributes = Some [(''atk'', Some ''10'')],
        node_susceptibility = [], node_unattainable = False \<rparr>] = (Some TypeError, main_init) \<and>
   parseItems main_init
     [plainNode ''club'' ''club'' [(''atk'', Some ''10''), (''statusattack'', None)]] =
     (Some TypeError, main_init)"
  by code_simp

text \<open>
  C3, amended. For every document whose items each have a type element and an attributes
  element, and a value on the \<open>statusattack\<close> element if there is one,
  \<open>parseItems\<close> runs to completion without an exception, whatever else is missing or
  unparseable: on a collection that was empty, the level, rate and range of every record
  are finite numbers (0 where the attribute is missing or unparseable), and so are its
  atk and def, except on a record named \<open>l/r hand swords\<close>, where they are numbers (the
  sum of two finite doubles can be an infinity).
\<close>

theorem parseItems_completes:
  assumes "\<forall>nd\<in>set nodes. hasRequiredNodes nd"
  shows "fst (parseItems m nodes) = None \<and>
     (items m = [] \<longrightarrow>
        (\<forall>r\<in>set (items (snd (parseItems m nodes))).
           isFinite (item_level r) \<and> isFinite (item_rate r) \<and> isFinite (item_range r) \<and>
           \<not> isNaN (item_atk r) \<and> \<not> isNaN (item_def r) \<and>
           (item_name r \<noteq> Str ''l/r hand swords'' \<longrightarrow>
              isFinite (item_atk r) \<and> isFinite (item_def r))))"
proof -
  let ?P = "\<lambda>r. isFinite (item_level r) \<and> isFinite (item_rate r) \<and> isFinite (item_range r) \<and>
           \<not> isNaN (item_atk r) \<and> \<not> isNaN (item_def r) \<and>
           (item_name r \<noteq> Str ''l/r hand swords'' \<longrightarrow>
              isFinite (item_atk r) \<and> isFinite (item_def r))"
  have run: "parseItems m nodes = (fst (parseItems m nodes), snd (parseItems m nodes))"
    by simp
  have "\<forall>r\<in>set (items (snd (parseItems m nodes))). ?P r" if "items m = []"
  proof -
    from that have init: "\<forall>r\<in>set (items m). ?P r" by simp
    show ?thesis
      by (rule parseItems_invariant [of m nodes _ _ ?P, OF run init]) (rule statsFinite_built)
  qed
  with parseItems_no_exception [OF assms] show ?thesis by blast
qed

theorem parseItems_completes_witness:
  "hasRequiredNodes \<lparr> node_name = None, node_type = Some \<lparr> class_attr = None, subclass_attr = None \<rparr>,
        node_value = None, node_attributes = Some [], node_susceptibility = [],
        node_unattainable = False \<rparr> \<and>
   hasRequiredNodes \<lparr> node_name = Some ''club'',
        node_type = Some \<lparr> class_attr = Some ''club'', subclass_attr = Some ''club'' \<rparr>,
        node_value = Some None,
        node_attributes = Some [(''atk'', Some ''strong''), (''rate'', None), (''def'', Some ''Infinity''),
          (''min_level'', Some ''''), (''amount'', Some ''much''), (''damagetype'', None)],
        node_susceptibility = [\<lparr> sus_type = None, sus_value = None \<rparr>,
          \<lparr> sus_type = Some ''fire'', sus_value = Some ''hot'' \<rparr>],
        node_unattainable = False \<rparr> \<and>
   fst (parseItems main_init
     [\<lparr> node_name = None, node_type = Some \<lparr> class_attr = None, subclass_attr = None \<rparr>,
        node_value = None, node_attributes = Some [], node_susceptibility = [],
        node_unattainable = False \<rparr>,
      \<lparr> node_name = Some ''club'',
        node_type = Some \<lparr> class_attr = Some ''club'', subclass_attr = Some ''club'' \<rparr>,
        node_value = Some None,
        node_attributes = Some [(''atk'', Some ''strong''), (''rate'', None), (''def'', Some ''Infinity''),
          (''min_level'', Some ''''), (''amount'', Some ''much''), (''damagetype'', None)],
        node_susceptibility = [\<lparr> sus_type = None, sus_value = None \<rparr>,
          \<lparr> sus_type = Some ''fire'', sus_value = Some ''hot'' \<rparr>],
        node_unattainable = False \<rparr>]) = None \<and>
   items main_init = [] \<and>
   items (snd (parseItems main_init
     [\<lparr> node_name = None, node_type = Some \<lparr> class_attr = None, subclass_attr = None \<rparr>,
        node_value = None, node_attributes = Some [], node_susceptibility = [],
        node_unattainable = False \<rparr>,
      \<lparr> node_name = Some ''club'',
        node_type = Some \<lparr> class_attr = Some ''club'', subclass_attr = Some ''club'' \<rparr>,
        node_value = Some None,
        node_attributes = Some [(''atk'', Some ''strong''), (''rate'', None), (''def'', Some ''Infinity''),
          (''min_level'', Some ''''), (''amount'', Some ''much''), (''damagetype'', None)],
        node_susceptibility = [\<lparr> sus_type = None, sus_value = None \<rparr>,
          \<lparr> sus_type = Some ''fire'', sus_value = Some ''hot'' \<rparr>],
        node_unattainable = False \<rparr>])) =
     [\<lparr> item_name = Null, item_class = Null, item_image = Null, item_value = Str ''0'',
        item_level = Fin 0, item_rate = Fin 0, item_atk = Fin 0, item_def = Fin 0,
        item_range = Fin 0, item_dpt = NaN, item_special = [] \<rparr>,
      \<lparr> item_name = Str ''club'', item_class = Str ''club'', item_image = Str ''club'',
        item_value = Null, item_level = Fin 0, item_rate = Fin 0, item_atk = Fin 0,
        item_def = Fin 0, item_range = Fin 0, item_dpt = NaN, item_special = [Null] \<rparr>]"
proof -
  let ?n1 = "\<lparr> node_name = None, node_type = Some \<lparr> class_attr = None, subclass_attr = None \<rparr>,
        node_value = None, node_attributes = Some [], node_susceptibility = [],
        node_unattainable = False \<rparr>"
  let ?n2 = "\<lparr> node_name = Some ''club'',
        node_type = Some \<lparr> class_attr = Some ''club'', subclass_attr = Some ''club'' \<rparr>,
        node_value = Some None,
        node_attributes = Some [(''atk'', Some ''strong''), (''rate'', None), (''def'', Some ''Infinity''),
          (''min_level'', Some ''''), (''amount'', Some ''much''), (''damagetype'', None)],
        node_susceptibility = [\<lparr> sus_type = None, sus_value = None \<rparr>,
          \<lparr> sus_type = Some ''fire'', sus_value = Some ''hot'' \<rparr>],
        node_unattainable = False \<rparr>"
  have h1: "hasRequiredNodes ?n1" by code_simp
  have h2: "hasRequiredNodes ?n2" by code_simp
  have h: "\<forall>nd\<in>set [?n1, ?n2]. hasRequiredNodes nd" using h1 h2 by simp
  have init: "items main_init = []" by (simp add: main_init_def)
  have ev: "items (snd (parseItems main_init [?n1, ?n2])) =
     [\<lparr> item_name = Null, item_class = Null, item_image = Null, item_value = Str ''0'',
        item_level = Fin 0, item_rate = Fin 0, item_atk = Fin 0, item_def = Fin 0,
        item_range = Fin 0, item_dpt = NaN, item_special = [] \<rparr>,
      \<lparr> item_name = Str ''club'', item_class = Str ''club'', item_image = Str ''club'',
        item_value = Null, item_level = Fin 0, item_rate = Fin 0, item_atk = Fin 0,
        item_def = Fin 0, item_range = Fin 0, item_dpt = NaN, item_special = [Null] \<rparr>]"
    by code_simp
  from parseItems_completes [OF h, of main_init] h1 h2 init ev show ?thesis by blast
qed

section \<open>The entries of the special list\<close>

lemma strictNe_zero: "strictNe a (Fin 0) \<Longrightarrow> \<not> isZero a"
  by (cases a) (auto simp: strictNe_def)

lemma jsmul_zero: "isZero a \<Longrightarrow> isZero (jsmul a (Fin 100))"
  by (cases a) (simp_all add: jsmul_def signedZero_def)

lemma natureTraits_source:
  "t \<in> set (natureTraits bag) \<Longrightarrow>
   stringAttribute bag ''damagetype'' \<noteq> Undefined \<and> t = stringAttribute bag ''damagetype''"
  by (simp add: natureTraits_def Let_def split: if_splits)

lemma statusTraits_source:
  "statusTraits bag = Inr st \<Longrightarrow> t \<in> set st \<Longrightarrow>
   stringAttribute bag ''statusattack'' \<noteq> Undefined \<and> st = [t]"
  by (cases "stringAttribute bag ''statusattack''")
     (auto simp: statusTraits_def split: if_splits)

lemma susTrait_source: "t \<in> set (susTrait sus) \<Longrightarrow> susTrait sus = [t]"
  by (simp add: susTrait_def Let_def split: if_splits)

lemma susTraits_source: "t \<in> set (susTraits suss) \<Longrightarrow> \<exists>sus\<in>set suss. susTrait sus = [t]"
  by (auto simp: susTraits_def dest: susTrait_source)

lemma lifestealTraits_source:
  assumes "t \<in> set (lifestealTraits bag)"
  shows "\<not> isZero (numberAttribute bag ''lifesteal'' (Fin 0)) \<and> lifestealTraits bag = [t]"
proof -
  from assms have ne: "strictNe (jsmul (numberAttribute bag ''lifesteal'' (Fin 0)) (Fin 100)) (Fin 0)"
    and t: "lifestealTraits bag = [t]"
    by (simp_all add: lifestealTraits_def Let_def split: if_splits)
  from strictNe_zero [OF ne] jsmul_zero have "\<not> isZero (numberAttribute bag ''lifesteal'' (Fin 0))"
    by blast
  with t show ?thesis by simp
qed

lemma atkTraits_source:
  "t \<in> set (atkTraits cn it) \<Longrightarrow>
   \<not> isZero (item_atk it) \<and> \<not> isWeaponType cn \<and> \<not> isProjectileType cn \<and>
   t = Str (''atk='' @ numToString (item_atk it))"
  by (auto simp: atkTraits_def dest: strictNe_zero split: if_splits)

lemma defTraits_source:
  "t \<in> set (defTraits cn it) \<Longrightarrow>
   \<not> isZero (item_def it) \<and> \<not> isArmorType cn \<and>
   t = Str (''def ('' @ numToString (item_def it) @ '')'')"
  by (auto simp: defTraits_def dest: strictNe_zero split: if_splits)

lemma rangeTraits_source:
  "t \<in> set (rangeTraits cn it) \<Longrightarrow>
   \<not> isZero (item_range it) \<and> \<not> isRangedType cn \<and> \<not> isProjectileType cn \<and>
   t = Str (''range ('' @ numToString (item_range it) @ '')'')"
  by (auto simp: rangeTraits_def dest: strictNe_zero split: if_splits)

lemma consumeTraits_source:
  "t \<in> set (consumeTraits bag) \<Longrightarrow> \<not> isZero (numberAttribute bag ''amount'' (Fin 0))"
  by (cases "strictNe (numberAttribute bag ''amount'' (Fin 0)) (Fin 0)")
     (auto simp: consumeTraits_def Let_def dest: strictNe_zero)

lemma distinct_consumeTraits: "distinct (consumeTraits bag)"
  by (simp add: consumeTraits_def Let_def)

lemma stat_traits_distinct:
  "distinct (lifestealTraits bag @ atkTraits cn it @ defTraits cn it @ rangeTraits cn it @
             consumeTraits bag)"
proof -
  let ?tag = "\<lambda>t. take 2 (toStr t)"
  have l: "map ?tag (lifestealTraits bag) = [] \<or> map ?tag (lifestealTraits bag) = [''li'']"
    by (simp add: lifestealTraits_def Let_def)
  have a: "map ?tag (atkTraits cn it) = [] \<or> map ?tag (atkTraits cn it) = [''at'']"
    by (simp add: atkTraits_def)
  have d: "map ?tag (defTraits cn it) = [] \<or> map ?tag (defTraits cn it) = [''de'']"
    by (simp add: defTraits_def)
  have r: "map ?tag (rangeTraits cn it) = [] \<or> map ?tag (rangeTraits cn it) = [''ra'']"
    by (simp add: rangeTraits_def)
  have c6: "map ?tag (consumeTraits bag) \<in>
      {[], [''cu'', ''im''], [''he''], [''hu''], [''he'', ''re'', ''fr''], [''hu'', ''re'', ''fr'']}"
    by (simp add: consumeTraits_def Let_def)
  have c: "set (map ?tag (consumeTraits bag)) \<subseteq> {''cu'', ''im'', ''he'', ''hu'', ''re'', ''fr''} \<and>
      distinct (map ?tag (consumeTraits bag))"
    using c6 by (elim insertE emptyE) simp_all
  have s4: "distinct (map ?tag (rangeTraits cn it) @ map ?tag (consumeTraits bag))"
    using r c by (elim disjE) auto
  have t4: "set (map ?tag (rangeTraits cn it) @ map ?tag (consumeTraits bag)) \<subseteq>
      {''ra'', ''cu'', ''im'', ''he'', ''hu'', ''re'', ''fr''}"
    using r c by (elim disjE) auto
  have s3: "distinct (map ?tag (defTraits cn it) @ map ?tag (rangeTraits cn it) @
      map ?tag (consumeTraits bag))"
    using d s4 t4 by (elim disjE) auto
  have t3: "set (map ?tag (defTraits cn it) @ map ?tag (rangeTraits cn it) @
      map ?tag (consumeTraits bag)) \<subseteq> {''de'', ''ra'', ''cu'', ''im'', ''he'', ''hu'', ''re'', ''fr''}"
    using d t4 by (elim disjE) auto
  have s2: "distinct (map ?tag (atkTraits cn it) @ map ?tag (defTraits cn it) @
      map ?tag (rangeTraits cn it) @ map ?tag (consumeTraits bag))"
    using a s3 t3 by (elim disjE) auto
  have t2: "set (map ?tag (atkTraits cn it) @ map ?tag (defTraits cn it) @
      map ?tag (rangeTraits cn it) @ map ?tag (consumeTraits bag)) \<subseteq>
      {''at'', ''de'', ''ra'', ''cu'', ''im'', ''he'', ''hu'', ''re'', ''fr''}"
    using a t3 by (elim disjE) auto
  have s1: "distinct (map ?tag (lifestealTraits bag) @ map ?tag (atkTraits cn it) @
      map ?tag (defTraits cn it) @ map ?tag (rangeTraits cn it) @ map ?tag (consumeTraits bag))"
    using l s2 t2 by (elim disjE) auto
  then have "distinct (map ?tag (lifestealTraits bag @ atkTraits cn it @ defTraits cn it @
      rangeTraits cn it @ consumeTraits bag))"
    by simp
  then show ?thesis by (simp only: distinct_map)
qed

text \<open>
  C4, as stated, at two items shown with the weapons selected. A dagger whose damage type
  is \<open>poison\<close> and whose status attack contains \<open>poison\<close> gets the trait \<open>poison\<close>
  twice. A potion with an amount of 5 and neither a \<open>regen\<close> nor a \<open>frequency\<close>
  attribute gets the traits \<open>regen (0)\<close> and \<open>frequency (0)\<close>: two absent attributes
  contribute entries, printed as zero.
\<close>

theorem special_duplicates_counterexample:
  "map item_special (items (snd (parseItems main_init
      [plainNode ''venom dagger'' ''sword''
         [(''atk'', Some ''6''), (''rate'', Some ''3''), (''damagetype'', Some ''poison''),
          (''statusattack'', Some ''poison,greater'')],
       plainNode ''minor potion'' ''drink'' [(''amount'', Some ''5'')]]))) =
     [[Str ''poison'', Str ''poison''],
      [Str ''heal (5)'', Str ''regen (0)'', Str ''frequency (0)'']] \<and>
   map_of [(''amount'', Some ''5'')] ''regen'' = None \<and>
   map_of [(''amount'', Some ''5'')] ''frequency'' = None"
proof -
  have "map item_special (items (snd (parseItems main_init
      [plainNode ''venom dagger'' ''sword''
         [(''atk'', Some ''6''), (''rate'', Some ''3''), (''damagetype'', Some ''poison''),
          (''statusattack'', Some ''poison,greater'')],
       plainNode ''minor potion'' ''drink'' [(''amount'', Some ''5'')]]))) =
     [[Str ''poison'', Str ''poison''],
      [Str ''heal (5)'', Str ''regen (0)'', Str ''frequency (0)'']]"
    by code_simp
  then show ?thesis by simp
qed

text \<open>
  C4, amended. For every processed item, every entry of \<open>special\<close> has a source that is
  present or not zero: the \<open>damagetype\<close> or \<open>statusattack\<close> attribute of the bag, a
  susceptibility element, a \<open>lifesteal\<close> other than 0, an \<open>atk\<close>, \<open>def\<close> or
  \<open>range\<close> of the record other than 0, or an \<open>amount\<close> other than 0 (under which
  regen and frequency are printed, also as 0 when they are absent); other than 0 means
  neither of the two zeros of the doubles. So an absent
  damagetype, statusattack, lifesteal, atk, def, range or amount contributes no entry, and
  a zero lifesteal, atk, def, range or amount is not printed. The list is not checked for
  duplicates: it consists of at most two free-text traits and one per susceptibility
  element, which may repeat, followed by the stat and consumable traits, which are
  pairwise distinct.
\<close>

theorem special_entries_have_sources:
  assumes "specialTraits cn bag suss it = Inr sp"
  shows "(\<forall>t\<in>set sp.
       (stringAttribute bag ''damagetype'' \<noteq> Undefined \<and>
          t = stringAttribute bag ''damagetype'') \<or>
       (stringAttribute bag ''statusattack'' \<noteq> Undefined \<and> statusTraits bag = Inr [t]) \<or>
       (\<exists>sus\<in>set suss. susTrait sus = [t]) \<or>
       (\<not> isZero (numberAttribute bag ''lifesteal'' (Fin 0)) \<and> lifestealTraits bag = [t]) \<or>
       (\<not> isZero (item_atk it) \<and> t = Str (''atk='' @ numToString (item_atk it))) \<or>
       (\<not> isZero (item_def it) \<and> t = Str (''def ('' @ numToString (item_def it) @ '')'')) \<or>
       (\<not> isZero (item_range it) \<and> t = Str (''range ('' @ numToString (item_range it) @ '')'')) \<or>
       (\<not> isZero (numberAttribute bag ''amount'' (Fin 0)) \<and> t \<in> set (consumeTraits bag))) \<and>
     (\<exists>free stat. sp = free @ stat \<and> length free \<le> 2 + length suss \<and> distinct stat \<and>
        stat = lifestealTraits bag @ atkTraits cn it @ defTraits cn it @ rangeTraits cn it @
               consumeTraits bag)"
proof -
  from assms obtain st where st: "statusTraits bag = Inr st"
    and sp: "sp = natureTraits bag @ st @ susTraits suss @ lifestealTraits bag @
        atkTraits cn it @ defTraits cn it @ rangeTraits cn it @ consumeTraits bag"
    by (auto simp: specialTraits_def split: sum.splits)
  let ?stat = "lifestealTraits bag @ atkTraits cn it @ defTraits cn it @ rangeTraits cn it @
      consumeTraits bag"
  have sources: "(stringAttribute bag ''damagetype'' \<noteq> Undefined \<and>
          t = stringAttribute bag ''damagetype'') \<or>
       (stringAttribute bag ''statusattack'' \<noteq> Undefined \<and> statusTraits bag = Inr [t]) \<or>
       (\<exists>sus\<in>set suss. susTrait sus = [t]) \<or>
       (\<not> isZero (numberAttribute bag ''lifesteal'' (Fin 0)) \<and> lifestealTraits bag = [t]) \<or>
       (\<not> isZero (item_atk it) \<and> t = Str (''atk='' @ numToString (item_atk it))) \<or>
       (\<not> isZero (item_def it) \<and> t = Str (''def ('' @ numToString (item_def it) @ '')'')) \<or>
       (\<not> isZero (item_range it) \<and> t = Str (''range ('' @ numToString (item_range it) @ '')'')) \<or>
       (\<not> isZero (numberAttribute bag ''amount'' (Fin 0)) \<and> t \<in> set (consumeTraits bag))"
    if t: "t \<in> set sp" for t
  proof -
    from t sp consider "t \<in> set (natureTraits bag)" | "t \<in> set st" | "t \<in> set (susTraits suss)"
      | "t \<in> set (lifestealTraits bag)" | "t \<in> set (atkTraits cn it)"
      | "t \<in> set (defTraits cn it)" | "t \<in> set (rangeTraits cn it)"
      | "t \<in> set (consumeTraits bag)"
      by auto
    then show ?thesis
    proof cases
      case 1
      from natureTraits_source [OF this] show ?thesis by blast
    next
      case 2
      from statusTraits_source [OF st this] st show ?thesis by blast
    next
      case 3
      from susTraits_source [OF this] show ?thesis by blast
    next
      case 4
      from lifestealTraits_source [OF this] show ?thesis by blast
    next
      case 5
      from atkTraits_source [OF this] show ?thesis by blast
    next
      case 6
      from defTraits_source [OF this] show ?thesis by blast
    next
      case 7
      from rangeTraits_source [OF this] show ?thesis by blast
    next
      case 8
      with consumeTraits_source [OF this] show ?thesis by blast
    qed
  qed
  have "length (natureTraits bag) \<le> 1"
    by (simp add: natureTraits_def Let_def)
  moreover have "length st \<le> 1"
    using st by (cases "stringAttribute bag ''statusattack''")
      (auto simp: statusTraits_def split: if_splits)
  moreover have "length (susTraits suss) \<le> length suss"
  proof (induction suss)
    case Nil
    then show ?case by (simp add: susTraits_def)
  next
    case (Cons a suss)
    have "length (susTrait a) \<le> 1" by (simp add: susTrait_def Let_def)
    with Cons show ?case by (simp add: susTraits_def)
  qed
  ultimately have len: "length (natureTraits bag @ st @ susTraits suss) \<le> 2 + length suss"
    by simp
  from sp have "sp = (natureTraits bag @ st @ susTraits suss) @ ?stat" by simp
  with len stat_traits_distinct [of bag cn it]
  have "\<exists>free stat. sp = free @ stat \<and> length free \<le> 2 + length suss \<and> distinct stat \<and>
        stat = ?stat"
    by blast
  with sources show ?thesis by blast
qed

theorem special_entries_have_sources_witness:
  "specialTraits ''weapons''
     [(''damagetype'', Some ''cut''), (''lifesteal'', Some ''0''), (''amount'', Some ''0'')]
     [\<lparr> sus_type = Some ''fire'', sus_value = Some ''1.0'' \<rparr>]
     \<lparr> item_name = Str ''buckler'', item_class = Str ''shield'', item_image = Str ''buckler'',
       item_value = Str ''0'', item_level = Fin 0, item_rate = Fin 0, item_atk = Fin 0,
       item_def = Fin 2, item_range = Fin 0, item_dpt = NaN, item_special = [] \<rparr> =
     Inr [Str ''cut'', Str ''def (2)''] \<and>
   (\<exists>free stat. [Str ''cut'', Str ''def (2)''] = free @ stat \<and>
      length free \<le> 2 + length [\<lparr> sus_type = Some ''fire'', sus_value = Some ''1.0'' \<rparr>] \<and>
      distinct stat \<and> stat = [Str ''def (2)''])"
proof -
  let ?bag = "[(''damagetype'', Some ''cut''), (''lifesteal'', Some ''0''), (''amount'', Some ''0'')]"
  let ?it = "\<lparr> item_name = Str ''buckler'', item_class = Str ''shield'', item_image = Str ''buckler'',
       item_value = Str ''0'', item_level = Fin 0, item_rate = Fin 0, item_atk = Fin 0,
       item_def = Fin 2, item_range = Fin 0, item_dpt = NaN, item_special = [] \<rparr>"
  have ev: "specialTraits ''weapons'' ?bag
      [\<lparr> sus_type = Some ''fire'', sus_value = Some ''1.0'' \<rparr>] ?it =
      Inr [Str ''cut'', Str ''def (2)'']"
    by code_simp
  have stat: "lifestealTraits ?bag @ atkTraits ''weapons'' ?it @ defTraits ''weapons'' ?it @
      rangeTraits ''weapons'' ?it @ consumeTraits ?bag = [Str ''def (2)'']"
    by code_simp
  from special_entries_have_sources [OF ev, THEN conjunct2] ev show ?thesis
    unfolding stat by blast
qed

section \<open>The sword pair\<close>

lemma parseItems_append:
  "parseItems m (xs @ ys) =
     (case parseItems m xs of (None, m1) \<Rightarrow> parseItems m1 ys | (Some e, m1) \<Rightarrow> (Some e, m1))"
proof (induction xs arbitrary: m)
  case Nil
  then show ?case by simp
next
  case (Cons x xs)
  obtain e1 m1 where step: "parseItem m x = (e1, m1)" by (cases "parseItem m x")
  show ?case
  proof (cases e1)
    case None
    with step Cons.IH [of m1] show ?thesis by simp
  next
    case (Some err)
    with step show ?thesis by simp
  qed
qed

lemma parseItems_append_None:
  assumes "parseItems m (xs @ ys) = (None, m')"
  obtains m1 where "parseItems m xs = (None, m1)" and "parseItems m1 ys = (None, m')"
proof -
  obtain e1 m1 where one: "parseItems m xs = (e1, m1)" by (cases "parseItems m xs")
  with assms have "e1 = None" by (cases e1) (simp_all add: parseItems_append)
  with one assms that show thesis by (simp add: parseItems_append)
qed

lemma parseItems_single_None:
  assumes "parseItems m [x] = (None, m')"
  shows "parseItem m x = (None, m')"
proof -
  obtain e1 m1 where step: "parseItem m x = (e1, m1)" by (cases "parseItem m x")
  with assms show ?thesis by (cases e1) simp_all
qed

lemma freshItem_name: "item_name (freshItem nd ti bag) = getAttribute (node_name nd)"
  by (simp add: freshItem_def)

lemma popOtherHalf_other:
  "item_name it \<notin> pairNames \<Longrightarrow> popOtherHalf it m = (None, m)"
  by (simp add: popOtherHalf_def pairNames_def)

lemma popOtherHalf_pair:
  assumes "(n, other) \<in> {(''l hand sword'', ''r hand sword''), (''r hand sword'', ''l hand sword'')}"
    and "item_name it = Str n"
  shows "popOtherHalf it m = pop other m"
  using assms by (auto simp: popOtherHalf_def)

lemma popOtherHalf_flags:
  assumes "popOtherHalf it m = (lr, m1)"
  shows "className m1 = className m \<and> showUnattainable m1 = showUnattainable m"
  using popOtherHalf_frame [OF assms] by simp

lemma parseItem_flags:
  assumes "parseItem m nd = (None, m')"
  shows "className m' = className m \<and> showUnattainable m' = showUnattainable m"
  using assms
proof (rule parseItem_None)
  fix ti bag lr m1 sp
  assume pop: "popOtherHalf (freshItem nd ti bag) m = (lr, m1)"
    and m': "m' = (if node_unattainable nd \<and> \<not> showUnattainable m1 then m1
               else m1\<lparr> items := items m1 @
                      [(assignDpt (mergeHalves lr (freshItem nd ti bag)))\<lparr> item_special := sp \<rparr>] \<rparr>)"
  from popOtherHalf_flags [OF pop] m' show ?thesis by (simp split: if_splits)
qed

lemma parseItem_other:
  assumes run: "parseItem m nd = (None, m')"
    and name: "getAttribute (node_name nd) \<notin> pairNames"
  shows "filter (\<lambda>r. item_name r \<in> pairNames) (items m') =
         filter (\<lambda>r. item_name r \<in> pairNames) (items m)"
  using run
proof (rule parseItem_None)
  fix ti bag lr m1 sp
  assume pop: "popOtherHalf (freshItem nd ti bag) m = (lr, m1)"
    and m': "m' = (if node_unattainable nd \<and> \<not> showUnattainable m1 then m1
               else m1\<lparr> items := items m1 @
                      [(assignDpt (mergeHalves lr (freshItem nd ti bag)))\<lparr> item_special := sp \<rparr>] \<rparr>)"
  from name have "item_name (freshItem nd ti bag) \<notin> pairNames" by (simp add: freshItem_name)
  from popOtherHalf_other [OF this, of m] pop have lr: "lr = None" and m1: "m1 = m" by simp_all
  from name have "item_name ((assignDpt (mergeHalves None (freshItem nd ti bag)))\<lparr> item_special := sp \<rparr>)
      \<notin> pairNames"
    by (simp add: assignDpt_def mergeHalves_def freshItem_name)
  with m' lr m1 show ?thesis by (simp split: if_splits)
qed

lemma parseItems_others:
  assumes "parseItems m nodes = (None, m')"
    and "\<forall>nd\<in>set nodes. getAttribute (node_name nd) \<notin> pairNames"
  shows "filter (\<lambda>r. item_name r \<in> pairNames) (items m') =
         filter (\<lambda>r. item_name r \<in> pairNames) (items m) \<and>
         className m' = className m \<and> showUnattainable m' = showUnattainable m"
  using assms
proof (induction nodes arbitrary: m)
  case Nil
  then show ?case by simp
next
  case (Cons nd nodes)
  obtain e1 m1 where step: "parseItem m nd = (e1, m1)" by (cases "parseItem m nd")
  with Cons.prems(1) have e1: "e1 = None" by (cases e1) simp_all
  with step Cons.prems(1) have rest: "parseItems m1 nodes = (None, m')" by simp
  from step e1 have step': "parseItem m nd = (None, m1)" by simp
  from Cons.prems(2) have "getAttribute (node_name nd) \<notin> pairNames" by simp
  from parseItem_other [OF step' this] parseItem_flags [OF step']
  have one: "filter (\<lambda>r. item_name r \<in> pairNames) (items m1) =
         filter (\<lambda>r. item_name r \<in> pairNames) (items m) \<and>
         className m1 = className m \<and> showUnattainable m1 = showUnattainable m"
    by simp
  from Cons.prems(2) have "\<forall>nd\<in>set nodes. getAttribute (node_name nd) \<notin> pairNames" by simp
  from Cons.IH [OF rest this] one show ?case by simp
qed

lemma parseItem_other_Some:
  assumes run: "parseItem m nd = (Some e, m')"
    and name: "getAttribute (node_name nd) \<notin> pairNames"
  shows "m' = m"
proof (cases "node_type nd")
  case None
  with run show ?thesis by (simp add: parseItem_def)
next
  case (Some ti)
  note ti = this
  show ?thesis
  proof (cases "node_attributes nd")
    case None
    with run ti show ?thesis by (simp add: parseItem_def)
  next
    case (Some bag)
    from name have "item_name (freshItem nd ti bag) \<notin> pairNames" by (simp add: freshItem_name)
    from popOtherHalf_other [OF this, of m]
    have pop: "popOtherHalf (freshItem nd ti bag) m = (None, m)" .
    note u = parseItem_unfold [OF ti Some pop]
    from run u show ?thesis
      by (cases "specialTraits (className m) bag (node_susceptibility nd)
           (assignDpt (mergeHalves None (freshItem nd ti bag)))") (simp_all split: if_splits)
  qed
qed

lemma parseItems_others_any:
  assumes "parseItems m nodes = (e, m')"
    and "\<forall>nd\<in>set nodes. getAttribute (node_name nd) \<notin> pairNames"
  shows "filter (\<lambda>r. item_name r \<in> pairNames) (items m') =
         filter (\<lambda>r. item_name r \<in> pairNames) (items m)"
  using assms
proof (induction nodes arbitrary: m)
  case Nil
  then show ?case by simp
next
  case (Cons nd nodes)
  obtain e1 m1 where step: "parseItem m nd = (e1, m1)" by (cases "parseItem m nd")
  from Cons.prems(2) have nd: "getAttribute (node_name nd) \<notin> pairNames"
    and rest: "\<forall>nd\<in>set nodes. getAttribute (node_name nd) \<notin> pairNames"
    by simp_all
  show ?case
  proof (cases e1)
    case None
    with step Cons.prems(1) have run: "parseItems m1 nodes = (e, m')" by simp
    from step None have "parseItem m nd = (None, m1)" by simp
    from parseItem_other [OF this nd] Cons.IH [OF run rest] show ?thesis by simp
  next
    case (Some err)
    with step Cons.prems(1) have "m' = m1" by simp
    moreover from step Some have "parseItem m nd = (Some err, m1)" by simp
    from parseItem_other_Some [OF this nd] have "m1 = m" .
    ultimately show ?thesis by simp
  qed
qed

lemma jsadd_int:
  assumes "\<bar>i + j\<bar> < 2 ^ 53"
  shows "jsadd (Fin (of_int i)) (Fin (of_int j)) = Fin (of_int (i + j))"
proof (cases "i + j = 0")
  case True
  then have "(of_int i :: rat) + of_int j = 0" by (simp flip: of_int_add)
  with True show ?thesis by (simp add: jsadd_def signedZero_def)
next
  case False
  then have "(of_int i :: rat) + of_int j \<noteq> 0" by (simp flip: of_int_add)
  then have "jsadd (Fin (of_int i)) (Fin (of_int j)) = roundDouble (of_int (i + j))"
    by (simp add: jsadd_def)
  with roundDouble_of_int [OF assms] show ?thesis by simp
qed

lemma specialTraits_special_update:
  "specialTraits cn bag suss (it\<lparr> item_special := sp \<rparr>) = specialTraits cn bag suss it"
  by (cases "statusTraits bag")
     (simp_all add: specialTraits_def atkTraits_def defTraits_def rangeTraits_def)

text \<open>
  C9. When the merge fires, that is when the pop hands back the record \<open>lr\<close> of the
  half that arrived first, and the round pushes its record: the pushed record is
  \<open>lr\<close> under the name \<open>l/r hand swords\<close>, with the class, image, value, level,
  rate and range of \<open>lr\<close>; its \<open>atk\<close> and \<open>def\<close> are those of \<open>lr\<close> plus those
  read from the current node's bag; its \<open>dpt\<close> is computed from the combined \<open>atk\<close>
  and the rate of \<open>lr\<close>; its \<open>special\<close> list is built from the current node's
  attribute bag and susceptibility elements (the \<open>atk\<close>, \<open>def\<close> and \<open>range\<close>
  traits reading the merged record's fields).
\<close>

theorem merge_frame:
  assumes ti: "node_type nd = Some ti" and bag: "node_attributes nd = Some bag"
    and pop: "popOtherHalf (freshItem nd ti bag) m = (Some lr, m1)"
    and status: "stringAttribute bag ''statusattack'' \<noteq> Null"
    and kept: "\<not> (node_unattainable nd \<and> \<not> showUnattainable m)"
  shows "\<exists>merged. parseItem m nd = (None, m1\<lparr> items := items m1 @ [merged] \<rparr>) \<and>
     lr \<in> set (items m) \<and> item_name lr \<in> {Str ''l hand sword'', Str ''r hand sword''} \<and>
     item_name lr \<noteq> getAttribute (node_name nd) \<and>
     item_name merged = Str ''l/r hand swords'' \<and>
     item_class merged = item_class lr \<and> item_image merged = item_image lr \<and>
     item_value merged = item_value lr \<and> item_level merged = item_level lr \<and>
     item_rate merged = item_rate lr \<and> item_range merged = item_range lr \<and>
     item_atk merged = jsadd (item_atk lr) (numberAttribute bag ''atk'' (Fin 0)) \<and>
     item_def merged = jsadd (item_def lr) (numberAttribute bag ''def'' (Fin 0)) \<and>
     item_dpt merged = dptOf (item_atk merged) (item_rate lr) \<and>
     specialTraits (className m) bag (node_susceptibility nd) merged = Inr (item_special merged)"
proof -
  let ?it = "assignDpt (mergeHalves (Some lr) (freshItem nd ti bag))"
  from popOtherHalf_frame [OF pop]
  have flags: "className m1 = className m" "showUnattainable m1 = showUnattainable m"
    and mem: "lr \<in> set (items m)"
    by simp_all
  from specialTraits_Inr [OF status] obtain sp where
    sp: "specialTraits (className m1) bag (node_susceptibility nd) ?it = Inr sp"
    by blast
  let ?merged = "?it\<lparr> item_special := sp \<rparr>"
  from parseItem_unfold [OF ti bag pop] sp kept flags
  have run: "parseItem m nd = (None, m1\<lparr> items := items m1 @ [?merged] \<rparr>)"
    by auto
  from pop have names: "item_name lr \<in> {Str ''l hand sword'', Str ''r hand sword''} \<and>
      item_name lr \<noteq> getAttribute (node_name nd)"
    by (auto simp: popOtherHalf_def freshItem_name split: if_splits dest!: pop_Some)
  have fields: "item_name ?merged = Str ''l/r hand swords'' \<and>
     item_class ?merged = item_class lr \<and> item_image ?merged = item_image lr \<and>
     item_value ?merged = item_value lr \<and> item_level ?merged = item_level lr \<and>
     item_rate ?merged = item_rate lr \<and> item_range ?merged = item_range lr \<and>
     item_atk ?merged = jsadd (item_atk lr) (numberAttribute bag ''atk'' (Fin 0)) \<and>
     item_def ?merged = jsadd (item_def lr) (numberAttribute bag ''def'' (Fin 0)) \<and>
     item_dpt ?merged = dptOf (item_atk ?merged) (item_rate lr)"
    by (simp add: assignDpt_def mergeHalves_def freshItem_def)
  from sp flags have special: "specialTraits (className m) bag (node_susceptibility nd) ?merged =
      Inr (item_special ?merged)"
    by (simp add: specialTraits_special_update)
  from run mem names fields special show ?thesis by blast
qed

theorem merge_frame_witness:
  "popOtherHalf
     (freshItem
        (plainNode ''r hand sword'' ''sword''
           [(''atk'', Some ''7''), (''def'', Some ''2''), (''rate'', Some ''3''),
            (''min_level'', Some ''20''), (''damagetype'', Some ''cut'')])
        \<lparr> class_attr = Some ''sword'', subclass_attr = Some ''r hand sword'' \<rparr>
        [(''atk'', Some ''7''), (''def'', Some ''2''), (''rate'', Some ''3''),
         (''min_level'', Some ''20''), (''damagetype'', Some ''cut'')])
     (snd (parseItems main_init
        [plainNode ''l hand sword'' ''sword''
           [(''atk'', Some ''5''), (''def'', Some ''1''), (''rate'', Some ''4''),
            (''min_level'', Some ''10''), (''damagetype'', Some ''slash'')]])) =
     (Some \<lparr> item_name = Str ''l hand sword'', item_class = Str ''sword'',
             item_image = Str ''l hand sword'', item_value = Str ''0'', item_level = Fin 10,
             item_rate = Fin 4, item_atk = Fin 5, item_def = Fin 1, item_range = Fin 0,
             item_dpt = Fin (5 / 4), item_special = [Str ''slash'', Str ''def (1)''] \<rparr>,
      main_init) \<and>
   parseItem
     (snd (parseItems main_init
        [plainNode ''l hand sword'' ''sword''
           [(''atk'', Some ''5''), (''def'', Some ''1''), (''rate'', Some ''4''),
            (''min_level'', Some ''10''), (''damagetype'', Some ''slash'')]]))
     (plainNode ''r hand sword'' ''sword''
        [(''atk'', Some ''7''), (''def'', Some ''2''), (''rate'', Some ''3''),
         (''min_level'', Some ''20''), (''damagetype'', Some ''cut'')]) =
     (None, main_init\<lparr> items :=
        [\<lparr> item_name = Str ''l/r hand swords'', item_class = Str ''sword'',
           item_image = Str ''l hand sword'', item_value = Str ''0'', item_level = Fin 10,
           item_rate = Fin 4, item_atk = Fin 12, item_def = Fin 3, item_range = Fin 0,
           item_dpt = Fin 3, item_special = [Str ''cut'', Str ''def (3)''] \<rparr>] \<rparr>)"
proof -
  let ?bagR = "[(''atk'', Some ''7''), (''def'', Some ''2''), (''rate'', Some ''3''),
         (''min_level'', Some ''20''), (''damagetype'', Some ''cut'')]"
  let ?tiR = "\<lparr> class_attr = Some ''sword'', subclass_attr = Some ''r hand sword'' \<rparr>"
  let ?ndR = "plainNode ''r hand sword'' ''sword'' ?bagR"
  let ?m = "snd (parseItems main_init
        [plainNode ''l hand sword'' ''sword''
           [(''atk'', Some ''5''), (''def'', Some ''1''), (''rate'', Some ''4''),
            (''min_level'', Some ''10''), (''damagetype'', Some ''slash'')]])"
  have ti: "node_type ?ndR = Some ?tiR" by (simp add: plainNode_def)
  have bag: "node_attributes ?ndR = Some ?bagR" by (simp add: plainNode_def)
  have pop: "popOtherHalf (freshItem ?ndR ?tiR ?bagR) ?m =
     (Some \<lparr> item_name = Str ''l hand sword'', item_class = Str ''sword'',
             item_image = Str ''l hand sword'', item_value = Str ''0'', item_level = Fin 10,
             item_rate = Fin 4, item_atk = Fin 5, item_def = Fin 1, item_range = Fin 0,
             item_dpt = Fin (5 / 4), item_special = [Str ''slash'', Str ''def (1)''] \<rparr>,
      main_init)"
    by code_simp
  have status: "stringAttribute ?bagR ''statusattack'' \<noteq> Null" by code_simp
  have kept: "\<not> (node_unattainable ?ndR \<and> \<not> showUnattainable ?m)"
    by (simp add: plainNode_def)
  have ev: "parseItem ?m ?ndR =
     (None, main_init\<lparr> items :=
        [\<lparr> item_name = Str ''l/r hand swords'', item_class = Str ''sword'',
           item_image = Str ''l hand sword'', item_value = Str ''0'', item_level = Fin 10,
           item_rate = Fin 4, item_atk = Fin 12, item_def = Fin 3, item_range = Fin 0,
           item_dpt = Fin 3, item_special = [Str ''cut'', Str ''def (3)''] \<rparr>] \<rparr>)"
    by code_simp
  from merge_frame [OF ti bag pop status kept] pop ev show ?thesis by blast
qed

lemma pair_in_pairNames:
  assumes "(n, other) \<in> {(''l hand sword'', ''r hand sword''), (''r hand sword'', ''l hand sword'')}"
  shows "Str n \<in> pairNames" and "Str other \<in> pairNames" and "n \<noteq> other"
    and "Str ''l/r hand swords'' \<in> pairNames"
  using assms by (auto simp: pairNames_def)

lemma first_half_round:
  assumes run: "parseItem m a = (None, m')"
    and pair: "(n, other) \<in> {(''l hand sword'', ''r hand sword''), (''r hand sword'', ''l hand sword'')}"
    and name: "node_name a = Some n"
    and bag: "node_attributes a = Some baga"
    and clean: "filter (\<lambda>r. item_name r \<in> pairNames) (items m) = []"
    and kept: "\<not> (node_unattainable a \<and> \<not> showUnattainable m)"
  shows "\<exists>ra. filter (\<lambda>r. item_name r \<in> pairNames) (items m') = [ra] \<and>
     item_name ra = Str n \<and>
     item_atk ra = numberAttribute baga ''atk'' (Fin 0) \<and>
     item_def ra = numberAttribute baga ''def'' (Fin 0)"
  using run
proof (rule parseItem_None)
  fix ti bag lr m1 sp
  assume bag': "node_attributes a = Some bag"
    and pop: "popOtherHalf (freshItem a ti bag) m = (lr, m1)"
    and m': "m' = (if node_unattainable a \<and> \<not> showUnattainable m1 then m1
               else m1\<lparr> items := items m1 @
                      [(assignDpt (mergeHalves lr (freshItem a ti bag)))\<lparr> item_special := sp \<rparr>] \<rparr>)"
  from bag bag' have eq: "bag = baga" by simp
  have fname: "item_name (freshItem a ti bag) = Str n" by (simp add: freshItem_name name)
  from popOtherHalf_pair [OF pair fname] pop have p: "pop other m = (lr, m1)" by simp
  from clean pair_in_pairNames(2) [OF pair]
  have "\<forall>x\<in>set (items m). item_name x \<noteq> Str other"
    by (auto simp: filter_empty_conv)
  then have "fst (pop other m) = None" by (simp add: pop_None)
  with p have lr: "lr = None" by simp
  with p pop_None_state have m1: "m1 = m" by blast
  let ?ra = "(assignDpt (mergeHalves None (freshItem a ti bag)))\<lparr> item_special := sp \<rparr>"
  from m' lr m1 kept have "items m' = items m @ [?ra]" by auto
  moreover have "item_name ?ra = Str n"
    by (simp add: assignDpt_def mergeHalves_def fname)
  moreover have "item_atk ?ra = numberAttribute baga ''atk'' (Fin 0)"
    "item_def ?ra = numberAttribute baga ''def'' (Fin 0)"
    by (simp_all add: assignDpt_def mergeHalves_def freshItem_def eq)
  ultimately show ?thesis
    using clean pair_in_pairNames(1) [OF pair] by simp
qed

lemma second_half_round:
  assumes run: "parseItem m b = (None, m')"
    and pair: "(n, other) \<in> {(''l hand sword'', ''r hand sword''), (''r hand sword'', ''l hand sword'')}"
    and name: "node_name b = Some n"
    and bag: "node_attributes b = Some bagb"
    and one: "filter (\<lambda>r. item_name r \<in> pairNames) (items m) = [ra]"
    and ra: "item_name ra = Str other"
    and kept: "\<not> (node_unattainable b \<and> \<not> showUnattainable m)"
  shows "\<exists>merged. filter (\<lambda>r. item_name r \<in> pairNames) (items m') = [merged] \<and>
     item_name merged = Str ''l/r hand swords'' \<and>
     item_atk merged = jsadd (item_atk ra) (numberAttribute bagb ''atk'' (Fin 0)) \<and>
     item_def merged = jsadd (item_def ra) (numberAttribute bagb ''def'' (Fin 0))"
  using run
proof (rule parseItem_None)
  fix ti bag lr m1 sp
  assume bag': "node_attributes b = Some bag"
    and pop: "popOtherHalf (freshItem b ti bag) m = (lr, m1)"
    and m': "m' = (if node_unattainable b \<and> \<not> showUnattainable m1 then m1
               else m1\<lparr> items := items m1 @
                      [(assignDpt (mergeHalves lr (freshItem b ti bag)))\<lparr> item_special := sp \<rparr>] \<rparr>)"
  from bag bag' have eq: "bag = bagb" by simp
  have fname: "item_name (freshItem b ti bag) = Str n" by (simp add: freshItem_name name)
  from popOtherHalf_pair [OF pair fname] pop have p: "pop other m = (lr, m1)" by simp
  from one have "ra \<in> set (filter (\<lambda>r. item_name r \<in> pairNames) (items m))" by simp
  then have "ra \<in> set (items m)" by simp
  with ra have "\<not> (\<forall>x\<in>set (items m). item_name x \<noteq> Str other)" by blast
  then have "fst (pop other m) \<noteq> None" by (simp add: pop_None)
  with p obtain x where lr: "lr = Some x" by (cases lr) simp_all
  with p have "pop other m = (Some x, m1)" by simp
  from pop_Some [OF this] obtain pre post where
    split: "items m = pre @ x # post" and x: "item_name x = Str other"
    and m1: "m1 = m\<lparr> items := pre @ post \<rparr>"
    by blast
  from x pair_in_pairNames(2) [OF pair] have px: "item_name x \<in> pairNames" by simp
  from one split px
  have "filter (\<lambda>r. item_name r \<in> pairNames) pre @ x #
      filter (\<lambda>r. item_name r \<in> pairNames) post = [ra]"
    by simp
  then have xra: "x = ra" and rest: "filter (\<lambda>r. item_name r \<in> pairNames) pre = []"
      "filter (\<lambda>r. item_name r \<in> pairNames) post = []"
    by (simp_all add: append_eq_Cons_conv)
  let ?merged = "(assignDpt (mergeHalves (Some ra) (freshItem b ti bag)))\<lparr> item_special := sp \<rparr>"
  from m' lr xra m1 kept have "items m' = (pre @ post) @ [?merged]" by auto
  moreover have "item_name ?merged = Str ''l/r hand swords''"
    by (simp add: assignDpt_def mergeHalves_def)
  moreover have "item_atk ?merged = jsadd (item_atk ra) (numberAttribute bagb ''atk'' (Fin 0))"
    "item_def ?merged = jsadd (item_def ra) (numberAttribute bagb ''def'' (Fin 0))"
    by (simp_all add: assignDpt_def mergeHalves_def freshItem_def eq)
  ultimately show ?thesis
    using rest pair_in_pairNames(4) [OF pair] by simp
qed

lemma parseItems_append_intro:
  "parseItems m xs = (None, m1) \<Longrightarrow> parseItems m1 ys = r \<Longrightarrow> parseItems m (xs @ ys) = r"
  by (simp add: parseItems_append)

text \<open>
  C1, as stated, at two runs with the unattainable items hidden. When the left sword, the
  first to arrive, carries the unattainable marker, its record is not pushed, nothing is
  merged, and the collection ends with one record named \<open>r hand sword\<close>. When the
  right sword, the second to arrive, carries the marker, the left sword's record is popped
  and the merged record is not pushed: the collection ends empty.
\<close>

theorem dual_wield_unattainable_counterexample:
  "map item_name (items (snd (parseItems main_init
      [(plainNode ''l hand sword'' ''sword'' [(''atk'', Some ''5''), (''def'', Some ''1'')])
         \<lparr> node_unattainable := True \<rparr>,
       plainNode ''r hand sword'' ''sword'' [(''atk'', Some ''7''), (''def'', Some ''2'')]]))) =
     [Str ''r hand sword''] \<and>
   map item_name (items (snd (parseItems main_init
      [plainNode ''l hand sword'' ''sword'' [(''atk'', Some ''5''), (''def'', Some ''1'')],
       (plainNode ''r hand sword'' ''sword'' [(''atk'', Some ''7''), (''def'', Some ''2'')])
         \<lparr> node_unattainable := True \<rparr>]))) = []"
  by code_simp

text \<open>
  C1, amended. In one run of \<open>parseItems\<close> on a collection with no record of the sword
  pair, let the entries \<open>l hand sword\<close> and \<open>r hand sword\<close> appear once each, in either
  order, with any other entries before, between and after them; let no exception be
  thrown up to and including the second half, and let neither half be dropped as
  unattainable (no marker on either, or unattainable items shown). Then, when the second
  half arrives, the collection holds one record of the pair, the first half's; and at the
  end of the run, also one that a later entry ends with an exception, it holds exactly
  one record of the pair, named \<open>l/r hand swords\<close>, whose \<open>atk\<close> is the sum of the two
  entries' \<open>atk\<close> and whose \<open>def\<close> is the sum of their \<open>def\<close>, the first half's
  record being gone. The sum is the one of \<open>+=\<close> on doubles: the exact sum rounded to
  the nearest double, and so the arithmetic sum for integer stats below \<open>2 ^ 53\<close>.
\<close>

theorem dual_wield_merge:
  assumes run: "fst (parseItems m (pre @ [a] @ mid @ [b])) = None"
    and clean: "\<forall>r\<in>set (items m). item_name r \<notin> pairNames"
    and pair: "(na, nb) \<in> {(''l hand sword'', ''r hand sword''), (''r hand sword'', ''l hand sword'')}"
    and name_a: "node_name a = Some na" and name_b: "node_name b = Some nb"
    and others: "\<forall>nd\<in>set (pre @ mid @ post). getAttribute (node_name nd) \<notin> pairNames"
    and bag_a: "node_attributes a = Some baga" and bag_b: "node_attributes b = Some bagb"
    and kept: "showUnattainable m \<or> (\<not> node_unattainable a \<and> \<not> node_unattainable b)"
  shows "\<exists>merged first between.
     filter (\<lambda>r. item_name r \<in> pairNames)
       (items (snd (parseItems m (pre @ [a] @ mid @ [b] @ post)))) = [merged] \<and>
     item_name merged = Str ''l/r hand swords'' \<and>
     item_atk merged = jsadd (numberAttribute baga ''atk'' (Fin 0))
                             (numberAttribute bagb ''atk'' (Fin 0)) \<and>
     item_def merged = jsadd (numberAttribute baga ''def'' (Fin 0))
                             (numberAttribute bagb ''def'' (Fin 0)) \<and>
     (\<forall>i j. numberAttribute baga ''atk'' (Fin 0) = Fin (of_int i) \<and>
            numberAttribute bagb ''atk'' (Fin 0) = Fin (of_int j) \<and> \<bar>i + j\<bar> < 2 ^ 53 \<longrightarrow>
            item_atk merged = Fin (of_int (i + j))) \<and>
     (\<forall>i j. numberAttribute baga ''def'' (Fin 0) = Fin (of_int i) \<and>
            numberAttribute bagb ''def'' (Fin 0) = Fin (of_int j) \<and> \<bar>i + j\<bar> < 2 ^ 53 \<longrightarrow>
            item_def merged = Fin (of_int (i + j))) \<and>
     parseItems m (pre @ [a] @ mid) = (None, between) \<and>
     filter (\<lambda>r. item_name r \<in> pairNames) (items between) = [first] \<and>
     item_name first = Str na"
proof -
  let ?P = "\<lambda>r. item_name r \<in> pairNames"
  from run obtain m4 where runb: "parseItems m (pre @ [a] @ mid @ [b]) = (None, m4)"
    by (cases "parseItems m (pre @ [a] @ mid @ [b])") simp
  from runb obtain m1 where r1: "parseItems m pre = (None, m1)"
    and rest1: "parseItems m1 ([a] @ mid @ [b]) = (None, m4)"
    by (rule parseItems_append_None)
  from rest1 obtain m2 where r2: "parseItems m1 [a] = (None, m2)"
    and rest2: "parseItems m2 (mid @ [b]) = (None, m4)"
    by (rule parseItems_append_None)
  from rest2 obtain m3 where r3: "parseItems m2 mid = (None, m3)"
    and r4: "parseItems m3 [b] = (None, m4)"
    by (rule parseItems_append_None)
  from r2 have step_a: "parseItem m1 a = (None, m2)" by (rule parseItems_single_None)
  from r4 have step_b: "parseItem m3 b = (None, m4)" by (rule parseItems_single_None)
  from others have o_pre: "\<forall>nd\<in>set pre. getAttribute (node_name nd) \<notin> pairNames"
    and o_mid: "\<forall>nd\<in>set mid. getAttribute (node_name nd) \<notin> pairNames"
    and o_post: "\<forall>nd\<in>set post. getAttribute (node_name nd) \<notin> pairNames"
    by simp_all
  from clean have c0: "filter ?P (items m) = []" by (simp add: filter_empty_conv)
  from parseItems_others [OF r1 o_pre] c0
  have c1: "filter ?P (items m1) = []" and f1: "showUnattainable m1 = showUnattainable m"
    by simp_all
  from kept f1 have kept_a: "\<not> (node_unattainable a \<and> \<not> showUnattainable m1)" by blast
  from first_half_round [OF step_a pair name_a bag_a c1 kept_a] obtain ra where
    c2: "filter ?P (items m2) = [ra]" and ra: "item_name ra = Str na"
    and ra_atk: "item_atk ra = numberAttribute baga ''atk'' (Fin 0)"
    and ra_def: "item_def ra = numberAttribute baga ''def'' (Fin 0)"
    by blast
  from parseItem_flags [OF step_a] f1 have f2: "showUnattainable m2 = showUnattainable m" by simp
  from parseItems_others [OF r3 o_mid] c2 f2
  have c3: "filter ?P (items m3) = [ra]" and f3: "showUnattainable m3 = showUnattainable m"
    by simp_all
  from kept f3 have kept_b: "\<not> (node_unattainable b \<and> \<not> showUnattainable m3)" by blast
  from pair have pair': "(nb, na) \<in>
      {(''l hand sword'', ''r hand sword''), (''r hand sword'', ''l hand sword'')}"
    by auto
  from second_half_round [OF step_b pair' name_b bag_b c3 ra kept_b] obtain merged where
    c4: "filter ?P (items m4) = [merged]" and mname: "item_name merged = Str ''l/r hand swords''"
    and matk: "item_atk merged = jsadd (item_atk ra) (numberAttribute bagb ''atk'' (Fin 0))"
    and mdef: "item_def merged = jsadd (item_def ra) (numberAttribute bagb ''def'' (Fin 0))"
    by blast
  from parseItems_append_intro [OF runb refl, of post]
  have "parseItems m ((pre @ [a] @ mid @ [b]) @ post) = parseItems m4 post" .
  then have whole: "parseItems m (pre @ [a] @ mid @ [b] @ post) = parseItems m4 post" by simp
  obtain e' m' where fin: "parseItems m4 post = (e', m')" by (cases "parseItems m4 post")
  from parseItems_others_any [OF fin o_post] c4 have "filter ?P (items m') = [merged]" by simp
  with whole fin
  have c5: "filter ?P (items (snd (parseItems m (pre @ [a] @ mid @ [b] @ post)))) = [merged]"
    by simp
  from matk ra_atk have atk: "item_atk merged =
      jsadd (numberAttribute baga ''atk'' (Fin 0)) (numberAttribute bagb ''atk'' (Fin 0))"
    by simp
  from mdef ra_def have df: "item_def merged =
      jsadd (numberAttribute baga ''def'' (Fin 0)) (numberAttribute bagb ''def'' (Fin 0))"
    by simp
  from atk have atk_int: "\<forall>i j. numberAttribute baga ''atk'' (Fin 0) = Fin (of_int i) \<and>
            numberAttribute bagb ''atk'' (Fin 0) = Fin (of_int j) \<and> \<bar>i + j\<bar> < 2 ^ 53 \<longrightarrow>
            item_atk merged = Fin (of_int (i + j))"
    by (simp add: jsadd_int)
  from df have def_int: "\<forall>i j. numberAttribute baga ''def'' (Fin 0) = Fin (of_int i) \<and>
            numberAttribute bagb ''def'' (Fin 0) = Fin (of_int j) \<and> \<bar>i + j\<bar> < 2 ^ 53 \<longrightarrow>
            item_def merged = Fin (of_int (i + j))"
    by (simp add: jsadd_int)
  from parseItems_append_intro [OF r2 r3] have "parseItems m1 ([a] @ mid) = (None, m3)" .
  from parseItems_append_intro [OF r1 this]
  have between: "parseItems m (pre @ [a] @ mid) = (None, m3)" .
  from c5 mname atk df atk_int def_int between c3 ra show ?thesis by blast
qed

theorem dual_wield_merge_witness:
  "(\<exists>merged.
      filter (\<lambda>r. item_name r \<in> pairNames)
        (items (snd (parseItems main_init
           ([plainNode ''short sword'' ''sword'' [(''atk'', Some ''4'')]] @
            [plainNode ''l hand sword'' ''sword'' [(''atk'', Some ''5''), (''def'', Some ''1'')]] @
            [plainNode ''katana'' ''sword'' [(''atk'', Some ''9'')]] @
            [plainNode ''r hand sword'' ''sword'' [(''atk'', Some ''7''), (''def'', Some ''2'')]] @
            [plainNode ''claymore'' ''sword'' [(''atk'', Some ''11''), (''statusattack'', None)]])))) =
        [merged] \<and>
      item_name merged = Str ''l/r hand swords'' \<and>
      item_atk merged = Fin 12 \<and> item_def merged = Fin 3) \<and>
   (\<exists>merged.
      filter (\<lambda>r. item_name r \<in> pairNames)
        (items (snd (parseItems main_init
           ([plainNode ''short sword'' ''sword'' [(''atk'', Some ''4'')]] @
            [plainNode ''r hand sword'' ''sword'' [(''atk'', Some ''7''), (''def'', Some ''0.2'')]] @
            [plainNode ''katana'' ''sword'' [(''atk'', Some ''9'')]] @
            [plainNode ''l hand sword'' ''sword'' [(''atk'', Some ''5''), (''def'', Some ''0.1'')]] @
            [plainNode ''claymore'' ''sword'' [(''atk'', Some ''11'')]])))) = [merged] \<and>
      item_name merged = Str ''l/r hand swords'' \<and>
      item_atk merged = Fin 12 \<and> numToString (item_def merged) = ''0.30000000000000004'')"
proof -
  have lr: "(\<exists>merged.
      filter (\<lambda>r. item_name r \<in> pairNames)
        (items (snd (parseItems main_init
           ([plainNode ''short sword'' ''sword'' [(''atk'', Some ''4'')]] @
            [plainNode ''l hand sword'' ''sword'' [(''atk'', Some ''5''), (''def'', Some ''1'')]] @
            [plainNode ''katana'' ''sword'' [(''atk'', Some ''9'')]] @
            [plainNode ''r hand sword'' ''sword'' [(''atk'', Some ''7''), (''def'', Some ''2'')]] @
            [plainNode ''claymore'' ''sword'' [(''atk'', Some ''11''), (''statusattack'', None)]])))) =
        [merged] \<and>
      item_name merged = Str ''l/r hand swords'' \<and>
      item_atk merged = Fin 12 \<and> item_def merged = Fin 3)"
  proof -
    let ?pre = "[plainNode ''short sword'' ''sword'' [(''atk'', Some ''4'')]]"
    let ?mid = "[plainNode ''katana'' ''sword'' [(''atk'', Some ''9'')]]"
    let ?post = "[plainNode ''claymore'' ''sword'' [(''atk'', Some ''11''), (''statusattack'', None)]]"
    let ?a = "plainNode ''l hand sword'' ''sword'' [(''atk'', Some ''5''), (''def'', Some ''1'')]"
    let ?b = "plainNode ''r hand sword'' ''sword'' [(''atk'', Some ''7''), (''def'', Some ''2'')]"
    have run: "fst (parseItems main_init (?pre @ [?a] @ ?mid @ [?b])) = None" by code_simp
    have clean: "\<forall>r\<in>set (items main_init). item_name r \<notin> pairNames"
      by (simp add: main_init_def)
    have pair: "(''l hand sword'', ''r hand sword'') \<in>
        {(''l hand sword'', ''r hand sword''), (''r hand sword'', ''l hand sword'')}"
      by simp
    have name_a: "node_name ?a = Some ''l hand sword''" by (simp add: plainNode_def)
    have name_b: "node_name ?b = Some ''r hand sword''" by (simp add: plainNode_def)
    have others: "\<forall>nd\<in>set (?pre @ ?mid @ ?post). getAttribute (node_name nd) \<notin> pairNames"
      by (simp add: plainNode_def pairNames_def)
    have bag_a: "node_attributes ?a = Some [(''atk'', Some ''5''), (''def'', Some ''1'')]" by (simp add: plainNode_def)
    have bag_b: "node_attributes ?b = Some [(''atk'', Some ''7''), (''def'', Some ''2'')]" by (simp add: plainNode_def)
    have kept: "showUnattainable main_init \<or> (\<not> node_unattainable ?a \<and> \<not> node_unattainable ?b)"
      by (simp add: plainNode_def)
    have sa: "jsadd (numberAttribute [(''atk'', Some ''5''), (''def'', Some ''1'')] ''atk'' (Fin 0))
        (numberAttribute [(''atk'', Some ''7''), (''def'', Some ''2'')] ''atk'' (Fin 0)) = Fin 12"
      by code_simp
    have sd: "jsadd (numberAttribute [(''atk'', Some ''5''), (''def'', Some ''1'')] ''def'' (Fin 0))
        (numberAttribute [(''atk'', Some ''7''), (''def'', Some ''2'')] ''def'' (Fin 0)) = Fin 3"
      by code_simp
    from dual_wield_merge [OF run clean pair name_a name_b others bag_a bag_b kept]
    show ?thesis
      unfolding sa sd by blast
  qed
  have rl: "(\<exists>merged.
      filter (\<lambda>r. item_name r \<in> pairNames)
        (items (snd (parseItems main_init
           ([plainNode ''short sword'' ''sword'' [(''atk'', Some ''4'')]] @
            [plainNode ''r hand sword'' ''sword'' [(''atk'', Some ''7''), (''def'', Some ''0.2'')]] @
            [plainNode ''katana'' ''sword'' [(''atk'', Some ''9'')]] @
            [plainNode ''l hand sword'' ''sword'' [(''atk'', Some ''5''), (''def'', Some ''0.1'')]] @
            [plainNode ''claymore'' ''sword'' [(''atk'', Some ''11'')]])))) = [merged] \<and>
      item_name merged = Str ''l/r hand swords'' \<and>
      item_atk merged = Fin 12 \<and> numToString (item_def merged) = ''0.30000000000000004'')"
  proof -
    let ?pre = "[plainNode ''short sword'' ''sword'' [(''atk'', Some ''4'')]]"
    let ?mid = "[plainNode ''katana'' ''sword'' [(''atk'', Some ''9'')]]"
    let ?post = "[plainNode ''claymore'' ''sword'' [(''atk'', Some ''11'')]]"
    let ?a = "plainNode ''r hand sword'' ''sword'' [(''atk'', Some ''7''), (''def'', Some ''0.2'')]"
    let ?b = "plainNode ''l hand sword'' ''sword'' [(''atk'', Some ''5''), (''def'', Some ''0.1'')]"
    have run: "fst (parseItems main_init (?pre @ [?a] @ ?mid @ [?b])) = None" by code_simp
    have clean: "\<forall>r\<in>set (items main_init). item_name r \<notin> pairNames"
      by (simp add: main_init_def)
    have pair: "(''r hand sword'', ''l hand sword'') \<in>
        {(''l hand sword'', ''r hand sword''), (''r hand sword'', ''l hand sword'')}"
      by simp
    have name_a: "node_name ?a = Some ''r hand sword''" by (simp add: plainNode_def)
    have name_b: "node_name ?b = Some ''l hand sword''" by (simp add: plainNode_def)
    have others: "\<forall>nd\<in>set (?pre @ ?mid @ ?post). getAttribute (node_name nd) \<notin> pairNames"
      by (simp add: plainNode_def pairNames_def)
    have bag_a: "node_attributes ?a = Some [(''atk'', Some ''7''), (''def'', Some ''0.2'')]" by (simp add: plainNode_def)
    have bag_b: "node_attributes ?b = Some [(''atk'', Some ''5''), (''def'', Some ''0.1'')]" by (simp add: plainNode_def)
    have kept: "showUnattainable main_init \<or> (\<not> node_unattainable ?a \<and> \<not> node_unattainable ?b)"
      by (simp add: plainNode_def)
    have sa: "jsadd (numberAttribute [(''atk'', Some ''7''), (''def'', Some ''0.2'')] ''atk'' (Fin 0))
        (numberAttribute [(''atk'', Some ''5''), (''def'', Some ''0.1'')] ''atk'' (Fin 0)) = Fin 12"
      by code_simp
    have sd: "numToString (jsadd (numberAttribute [(''atk'', Some ''7''), (''def'', Some ''0.2'')] ''def'' (Fin 0))
        (numberAttribute [(''atk'', Some ''5''), (''def'', Some ''0.1'')] ''def'' (Fin 0))) =
        ''0.30000000000000004''"
      by code_simp
    from dual_wield_merge [OF run clean pair name_a name_b others bag_a bag_b kept]
    obtain merged where
      "filter (\<lambda>r. item_name r \<in> pairNames)
         (items (snd (parseItems main_init (?pre @ [?a] @ ?mid @ [?b] @ ?post)))) = [merged]"
      and "item_name merged = Str ''l/r hand swords''"
      and "item_atk merged = Fin 12"
      and "item_def merged =
         jsadd (numberAttribute [(''atk'', Some ''7''), (''def'', Some ''0.2'')] ''def'' (Fin 0))
           (numberAttribute [(''atk'', Some ''5''), (''def'', Some ''0.1'')] ''def'' (Fin 0))"
      unfolding sa by blast
    with sd show ?thesis by auto
  qed
  from lr rl show ?thesis by (rule conjI)
qed

end
